theory Spec2Isabelle
  imports Complex_Main "HOL-Library.AList" "HOL-Library.Multiset"
begin

section \<open>JavaScript values\<close>

text \<open>
  The values the server handles are JSON documents (tool descriptors read by
  \<^verbatim>\<open>JSON.parse\<close>, call arguments read from the wire) and, through property
  reads that reach \<^verbatim>\<open>Object.prototype\<close>, the methods every plain object
  inherits. \<^verbatim>\<open>undefined\<close> is \<open>None\<close> of \<open>jsval option\<close>.

  A number carries its value and the text \<^verbatim>\<open>String(n)\<close> prints for it: the code
  observes a number only through \<^verbatim>\<open>typeof\<close>, \<^verbatim>\<open>Number.isInteger\<close> and string
  conversion. An object is the list of its own enumerable properties in the order
  \<^verbatim>\<open>Object.entries\<close> lists them (keys that are array indices first, then the others
  as inserted; a key occurs once). A function carries its name.
\<close>

datatype jsval =
    JNull
  | JBool bool
  | JNum rat string
  | JStr string
  | JArr "jsval list"
  | JObj "(string \<times> jsval) list"
  | JFunction string

text \<open>Thrown values: every \<^verbatim>\<open>throw\<close> of the repository raises \<^verbatim>\<open>new Error(msg)\<close>;
  the runtime and the validation library raise \<^verbatim>\<open>TypeError\<close>s, \<^verbatim>\<open>JSON.parse\<close> a
  \<^verbatim>\<open>SyntaxError\<close>. Each has a \<^verbatim>\<open>message\<close>.\<close>

datatype thrown =
    Error (message: string)
  | TypeError (message: string)
  | SyntaxError (message: string)

definition quote :: "string \<Rightarrow> string" where
  "quote s = [CHR 0x27] @ s @ [CHR 0x27]"

definition dquote :: "string \<Rightarrow> string" where
  "dquote s = [CHR 0x22] @ s @ [CHR 0x22]"

text \<open>The properties a plain object inherits from \<^verbatim>\<open>Object.prototype\<close>: property
  name and name of the function it holds. \<^verbatim>\<open>__proto__\<close> is the one inherited
  accessor.\<close>

definition Object_prototype_methods :: "(string \<times> string) list" where
  "Object_prototype_methods =
    [(''constructor'', ''Object''),
     (''__defineGetter__'', ''__defineGetter__''),
     (''__defineSetter__'', ''__defineSetter__''),
     (''hasOwnProperty'', ''hasOwnProperty''),
     (''__lookupGetter__'', ''__lookupGetter__''),
     (''__lookupSetter__'', ''__lookupSetter__''),
     (''isPrototypeOf'', ''isPrototypeOf''),
     (''propertyIsEnumerable'', ''propertyIsEnumerable''),
     (''toString'', ''toString''),
     (''valueOf'', ''valueOf''),
     (''toLocaleString'', ''toLocaleString'')]"

definition inherited :: "string \<Rightarrow> bool" where
  "inherited k = (k \<in> set (map fst Object_prototype_methods) \<or> k = ''__proto__'')"

text \<open>\<^verbatim>\<open>key in obj\<close> for a plain object: own or inherited.\<close>

definition has_property :: "(string \<times> jsval) list \<Rightarrow> string \<Rightarrow> bool" where
  "has_property obj k = (k \<in> set (map fst obj) \<or> inherited k)"

text \<open>\<^verbatim>\<open>obj[key]\<close> for a plain object: the own property, else the inherited one,
  else \<^verbatim>\<open>undefined\<close>.\<close>

definition get_property :: "(string \<times> jsval) list \<Rightarrow> string \<Rightarrow> jsval option" where
  "get_property obj k =
    (case map_of obj k of
       Some v \<Rightarrow> Some v
     | None \<Rightarrow>
        (case map_of Object_prototype_methods k of
           Some f \<Rightarrow> Some (JFunction f)
         | None \<Rightarrow> if k = ''__proto__'' then Some (JObj []) else None))"

text \<open>
  A property name is an array index when it is the canonical decimal numeral of an
  integer from 0 to \<open>2\<^sup>3\<^sup>2 - 2\<close>. A new property whose name is an array index takes its
  place among the array indices, in ascending order; any other new property comes last.
\<close>

definition is_digit :: "char \<Rightarrow> bool" where
  "is_digit c = (c \<in> set ''0123456789'')"

definition numeral_value :: "string \<Rightarrow> int" where
  "numeral_value k = foldl (\<lambda>n c. 10 * n + (of_char c - 48)) 0 k"

definition array_index :: "string \<Rightarrow> int option" where
  "array_index k =
    (if k \<noteq> [] \<and> list_all is_digit k \<and> (k = ''0'' \<or> hd k \<noteq> CHR ''0'')
        \<and> numeral_value k < 4294967295
     then Some (numeral_value k) else None)"

definition index_below :: "int \<Rightarrow> string \<times> 'a \<Rightarrow> bool" where
  "index_below i kv = (case array_index (fst kv) of Some j \<Rightarrow> j < i | None \<Rightarrow> False)"

definition define_property :: "(string \<times> 'a) list \<Rightarrow> string \<Rightarrow> 'a \<Rightarrow> (string \<times> 'a) list" where
  "define_property obj key v =
    (case array_index key of
       None \<Rightarrow> obj @ [(key, v)]
     | Some i \<Rightarrow> takeWhile (index_below i) obj @ (key, v) # dropWhile (index_below i) obj)"

text \<open>\<^verbatim>\<open>obj[key] = v\<close> on a plain object: the key \<^verbatim>\<open>__proto__\<close> reaches the inherited
  setter and creates no own property; an own property keeps its place and takes the
  new value; any other key becomes a new property.\<close>

definition assign :: "(string \<times> 'a) list \<Rightarrow> string \<Rightarrow> 'a \<Rightarrow> (string \<times> 'a) list" where
  "assign obj key v =
    (if key = ''__proto__'' then obj
     else if key \<in> fst ` set obj then AList.update key v obj
     else define_property obj key v)"

text \<open>\<^verbatim>\<open>v.k\<close> on a value that is neither \<^verbatim>\<open>null\<close> nor \<^verbatim>\<open>undefined\<close>, for the
  field names the source reads (\<^verbatim>\<open>name\<close>, \<^verbatim>\<open>inputSchema\<close>, \<^verbatim>\<open>properties\<close>,
  \<^verbatim>\<open>required\<close>, \<^verbatim>\<open>type\<close>, \<^verbatim>\<open>enum\<close>, \<^verbatim>\<open>default\<close>, \<^verbatim>\<open>params\<close>, \<^verbatim>\<open>arguments\<close>):
  primitives and arrays have none of them, a function has its \<^verbatim>\<open>name\<close>.\<close>

fun field_of :: "jsval \<Rightarrow> string \<Rightarrow> jsval option" where
  "field_of (JObj obj) k = get_property obj k"
| "field_of (JFunction f) k = (if k = ''name'' then Some (JStr f) else None)"
| "field_of _ k = None"

text \<open>\<^verbatim>\<open>v.k\<close> in general: reading a property of \<^verbatim>\<open>null\<close> or \<^verbatim>\<open>undefined\<close> throws
  (V8's wording).\<close>

fun field :: "jsval option \<Rightarrow> string \<Rightarrow> thrown + jsval option" where
  "field None k =
     Inl (TypeError (''Cannot read properties of undefined (reading '' @ quote k @ '')''))"
| "field (Some JNull) k =
     Inl (TypeError (''Cannot read properties of null (reading '' @ quote k @ '')''))"
| "field (Some v) k = Inr (field_of v k)"

fun truthy :: "jsval option \<Rightarrow> bool" where
  "truthy None = False"
| "truthy (Some JNull) = False"
| "truthy (Some (JBool b)) = b"
| "truthy (Some (JNum q t)) = (q \<noteq> 0)"
| "truthy (Some (JStr s)) = (s \<noteq> [])"
| "truthy (Some (JArr vs)) = True"
| "truthy (Some (JObj obj)) = True"
| "truthy (Some (JFunction f)) = True"

definition Number_isInteger :: "rat \<Rightarrow> bool" where
  "Number_isInteger q = (frac q = 0)"

subsection \<open>Strings\<close>

fun startsWith :: "string \<Rightarrow> string \<Rightarrow> bool" where
  "startsWith s [] = True"
| "startsWith [] (c # p) = False"
| "startsWith (d # s) (c # p) = (d = c \<and> startsWith s p)"

definition endsWith :: "string \<Rightarrow> string \<Rightarrow> bool" where
  "endsWith s e = startsWith (rev s) (rev e)"

text \<open>\<^verbatim>\<open>s.includes(t)\<close>: \<open>t\<close> occurs in \<open>s\<close> as a contiguous substring.\<close>

fun String_includes :: "string \<Rightarrow> string \<Rightarrow> bool" where
  "String_includes [] t = (t = [])"
| "String_includes (c # s) t = (startsWith (c # s) t \<or> String_includes s t)"

fun show_nat :: "nat \<Rightarrow> string" where
  "show_nat n = (if n < 10 then [''0123456789'' ! n]
                 else show_nat (n div 10) @ [''0123456789'' ! (n mod 10)])"

text \<open>\<^verbatim>\<open>String(v)\<close> and \<^verbatim>\<open>array.join(sep)\<close>. \<^verbatim>\<open>join\<close> prints \<^verbatim>\<open>null\<close> as the empty
  string; an array prints as its elements joined by a comma.\<close>

fun js_String :: "jsval \<Rightarrow> string"
  and join_from :: "string \<Rightarrow> jsval list \<Rightarrow> string"
  and join_elem :: "jsval \<Rightarrow> string" where
  "js_String JNull = ''null''"
| "js_String (JBool b) = (if b then ''true'' else ''false'')"
| "js_String (JNum q t) = t"
| "js_String (JStr s) = s"
| "js_String (JArr vs) = (case vs of [] \<Rightarrow> [] | v # r \<Rightarrow> join_elem v @ join_from '','' r)"
| "js_String (JObj obj) = ''[object Object]''"
| "js_String (JFunction f) = ''function '' @ f @ ''() { [native code] }''"
| "join_from sep [] = []"
| "join_from sep (v # r) = sep @ join_elem v @ join_from sep r"
| "join_elem JNull = []"
| "join_elem (JBool b) = js_String (JBool b)"
| "join_elem (JNum q t) = js_String (JNum q t)"
| "join_elem (JStr s) = js_String (JStr s)"
| "join_elem (JArr vs) = js_String (JArr vs)"
| "join_elem (JObj obj) = js_String (JObj obj)"
| "join_elem (JFunction f) = js_String (JFunction f)"

definition Array_join :: "jsval list \<Rightarrow> string \<Rightarrow> string" where
  "Array_join vs sep = (case vs of [] \<Rightarrow> [] | v # r \<Rightarrow> join_elem v @ join_from sep r)"

text \<open>A template literal \<^verbatim>\<open>${v}\<close>.\<close>

fun template :: "jsval option \<Rightarrow> string" where
  "template None = ''undefined''"
| "template (Some v) = js_String v"

text \<open>\<^verbatim>\<open>Object.entries(v)\<close>: the own enumerable string-keyed properties.\<close>

fun indexed :: "nat \<Rightarrow> 'a list \<Rightarrow> (string \<times> 'a) list" where
  "indexed i [] = []"
| "indexed i (x # xs) = (show_nat i, x) # indexed (Suc i) xs"

fun Object_entries :: "jsval \<Rightarrow> (string \<times> jsval) list" where
  "Object_entries (JObj obj) = obj"
| "Object_entries (JArr vs) = indexed 0 vs"
| "Object_entries (JStr s) = indexed 0 (map (\<lambda>c. JStr [c]) s)"
| "Object_entries _ = []"

section \<open>The validation library\<close>

text \<open>
  The schemas the source builds with Zod 3: \<^verbatim>\<open>z.string()\<close>, \<^verbatim>\<open>z.boolean()\<close>,
  \<^verbatim>\<open>z.number()\<close>, \<^verbatim>\<open>z.number().int()\<close>, \<^verbatim>\<open>z.any()\<close>, \<^verbatim>\<open>z.literal(s)\<close>,
  \<^verbatim>\<open>z.record(z.any())\<close>, \<^verbatim>\<open>z.array(z.string())\<close>, \<^verbatim>\<open>z.enum(values)\<close>,
  \<^verbatim>\<open>t.optional()\<close> and \<^verbatim>\<open>z.object(shape)\<close>, which strips unknown keys unless
  \<^verbatim>\<open>.passthrough()\<close> is called on it; and, in the request envelope of the protocol
  SDK, \<^verbatim>\<open>z.union([z.string(), z.number().int()])\<close>.
\<close>

datatype unknownKeys = strip | passthrough

datatype zod =
    ZString
  | ZBoolean
  | ZNumber
  | ZInt
  | ZAny
  | ZLiteral string
  | ZRecordAny
  | ZArrayOfString
  | ZUnionStringInt
  | ZEnum jsval
  | ZOptional zod
  | ZObject "(string \<times> zod) list" unknownKeys

datatype path_elem = Key string | Index nat

datatype issue = Issue (path: "path_elem list") (issue_message: string)

text \<open>Zod's \<^verbatim>\<open>getParsedType\<close>.\<close>

fun parsedType :: "jsval option \<Rightarrow> string" where
  "parsedType None = ''undefined''"
| "parsedType (Some JNull) = ''null''"
| "parsedType (Some (JBool b)) = ''boolean''"
| "parsedType (Some (JNum q t)) = ''number''"
| "parsedType (Some (JStr s)) = ''string''"
| "parsedType (Some (JArr vs)) = ''array''"
| "parsedType (Some (JObj obj)) = ''object''"
| "parsedType (Some (JFunction f)) = ''function''"

text \<open>The default error map's message for an \<^verbatim>\<open>invalid_type\<close> issue.\<close>

definition invalid_type :: "string \<Rightarrow> jsval option \<Rightarrow> string" where
  "invalid_type expected input =
    (if input = None then ''Required''
     else ''Expected '' @ expected @ '', received '' @ parsedType input)"

text \<open>\<^verbatim>\<open>util.joinValues(values)\<close>: strings in single quotes, joined by \<^verbatim>\<open> | \<close>.\<close>

fun quoted :: "jsval \<Rightarrow> jsval" where
  "quoted (JStr s) = JStr (quote s)"
| "quoted v = v"

definition joinValues :: "jsval list \<Rightarrow> string" where
  "joinValues vs = Array_join (map quoted vs) '' | ''"

fun array_issues :: "path_elem list \<Rightarrow> nat \<Rightarrow> jsval list \<Rightarrow> issue list" where
  "array_issues p i [] = []"
| "array_issues p i (v # vs) =
     (case v of
        JStr s \<Rightarrow> array_issues p (Suc i) vs
      | _ \<Rightarrow> Issue (p @ [Index i]) (invalid_type ''string'' (Some v))
              # array_issues p (Suc i) vs)"

text \<open>
  \<^verbatim>\<open>z.enum(values)._parse\<close>: an input that is not a string is an \<^verbatim>\<open>invalid_type\<close>
  issue whatever the list holds; a string must be a member of \<^verbatim>\<open>new Set(values)\<close>.
  When \<^verbatim>\<open>values\<close> is not an array, a \<^verbatim>\<open>TypeError\<close> is thrown: by \<^verbatim>\<open>new Set(values)\<close>
  when the input is a string and \<^verbatim>\<open>values\<close> is not iterable, else by
  \<^verbatim>\<open>util.joinValues\<close> (\<^verbatim>\<open>array.map\<close>) while the issue is built. \<^verbatim>\<open>null\<close> gives the
  empty set; a string is iterable, and a one-character input among its characters is
  accepted.
\<close>

definition typeof :: "jsval \<Rightarrow> string" where
  "typeof v =
    (case v of
       JNull \<Rightarrow> ''object'' | JBool b \<Rightarrow> ''boolean'' | JNum q t \<Rightarrow> ''number''
     | JStr s \<Rightarrow> ''string'' | JArr vs \<Rightarrow> ''object'' | JObj obj \<Rightarrow> ''object''
     | JFunction f \<Rightarrow> ''function'')"

text \<open>V8's message when a value that is not iterable is iterated inside a built-in.\<close>

definition not_iterable :: "jsval \<Rightarrow> string" where
  "not_iterable v =
    typeof v
    @ (case v of JBool b \<Rightarrow> '' '' @ js_String v | JNum q t \<Rightarrow> '' '' @ js_String v | _ \<Rightarrow> [])
    @ '' is not iterable (cannot read property Symbol(Symbol.iterator))''"

definition enum_parse :: "jsval \<Rightarrow> path_elem list \<Rightarrow> jsval option
                     \<Rightarrow> thrown + (issue list \<times> jsval option)" where
  "enum_parse values p input =
    (case values of
       JArr vs \<Rightarrow>
         (case input of
            Some (JStr s) \<Rightarrow>
              (if JStr s \<in> set vs then Inr ([], Some (JStr s))
               else Inr ([Issue p (''Invalid enum value. Expected '' @ joinValues vs
                                    @ '', received '' @ quote s)], None))
          | _ \<Rightarrow> Inr ([Issue p (invalid_type (joinValues vs) input)], None))
     | JStr cs \<Rightarrow>
         (case input of
            Some (JStr s) \<Rightarrow>
              (if length s = 1 \<and> hd s \<in> set cs then Inr ([], Some (JStr s))
               else Inl (TypeError ''array.map is not a function''))
          | _ \<Rightarrow> Inl (TypeError ''array.map is not a function''))
     | JNull \<Rightarrow>
         Inl (TypeError (''Cannot read properties of null (reading '' @ quote ''map'' @ '')''))
     | _ \<Rightarrow>
         (case input of
            Some (JStr s) \<Rightarrow> Inl (TypeError (not_iterable values))
          | _ \<Rightarrow> Inl (TypeError ''array.map is not a function'')))"

text \<open>
  \<^verbatim>\<open>_parse\<close>: the issues found, in the order they are added, and the output value.
  The parse succeeds iff no issue was added. An object schema runs the validator of
  every shape key, on \<^verbatim>\<open>data[key]\<close>, before it fails, so every issue is collected;
  the output holds the shape keys whose output is defined (the library also sets a key
  that is \<^verbatim>\<open>in\<close> the data; such a key reads as a defined value, and each validator
  here returns a defined value as it is); under \<^verbatim>\<open>passthrough\<close> the other keys of the
  data are then assigned to it. The key \<^verbatim>\<open>__proto__\<close> is never set on the output. A
  union returns the result of its first option that raises no issue, else that of the
  first whose value still stands (a number that fails \<^verbatim>\<open>int()\<close>), else it raises
  \<^verbatim>\<open>Invalid input\<close>.
\<close>

fun zparse :: "zod \<Rightarrow> path_elem list \<Rightarrow> jsval option \<Rightarrow> thrown + (issue list \<times> jsval option)"
  and zparse_shape :: "(string \<times> zod) list \<Rightarrow> path_elem list \<Rightarrow> (string \<times> jsval) list
                        \<Rightarrow> thrown + (issue list \<times> (string \<times> jsval) list)" where
  "zparse ZString p input =
     (case input of Some (JStr s) \<Rightarrow> Inr ([], input)
      | _ \<Rightarrow> Inr ([Issue p (invalid_type ''string'' input)], None))"
| "zparse ZBoolean p input =
     (case input of Some (JBool b) \<Rightarrow> Inr ([], input)
      | _ \<Rightarrow> Inr ([Issue p (invalid_type ''boolean'' input)], None))"
| "zparse ZNumber p input =
     (case input of Some (JNum q t) \<Rightarrow> Inr ([], input)
      | _ \<Rightarrow> Inr ([Issue p (invalid_type ''number'' input)], None))"
| "zparse ZInt p input =
     (case input of
        Some (JNum q t) \<Rightarrow>
          (if Number_isInteger q then Inr ([], input)
           else Inr ([Issue p ''Expected integer, received float''], input))
      | _ \<Rightarrow> Inr ([Issue p (invalid_type ''number'' input)], None))"
| "zparse ZAny p input = Inr ([], input)"
| "zparse (ZLiteral s) p input =
     (if input = Some (JStr s) then Inr ([], input)
      else Inr ([Issue p (''Invalid literal value, expected '' @ dquote s)], None))"
| "zparse ZRecordAny p input =
     (case input of
        Some (JObj obj) \<Rightarrow> Inr ([], Some (JObj (filter (\<lambda>kv. fst kv \<noteq> ''__proto__'') obj)))
      | _ \<Rightarrow> Inr ([Issue p (invalid_type ''object'' input)], None))"
| "zparse ZArrayOfString p input =
     (case input of
        Some (JArr vs) \<Rightarrow> Inr (array_issues p 0 vs, input)
      | _ \<Rightarrow> Inr ([Issue p (invalid_type ''array'' input)], None))"
| "zparse ZUnionStringInt p input =
     (case input of
        Some (JStr s) \<Rightarrow> Inr ([], input)
      | Some (JNum q t) \<Rightarrow>
          (if Number_isInteger q then Inr ([], input)
           else Inr ([Issue p ''Expected integer, received float''], input))
      | _ \<Rightarrow> Inr ([Issue p ''Invalid input''], None))"
| "zparse (ZEnum values) p input = enum_parse values p input"
| "zparse (ZOptional t) p input = (if input = None then Inr ([], None) else zparse t p input)"
| "zparse (ZObject shape u) p input =
     (case input of
        Some (JObj obj) \<Rightarrow>
          (case zparse_shape shape p obj of
             Inl e \<Rightarrow> Inl e
           | Inr (issues, out) \<Rightarrow>
               Inr (issues,
                    Some (JObj
                      (if u = passthrough
                       then fold (\<lambda>kv out. assign out (fst kv) (snd kv))
                              (filter (\<lambda>kv. fst kv \<notin> set (map fst shape)) obj) out
                       else out))))
      | _ \<Rightarrow> Inr ([Issue p (invalid_type ''object'' input)], None))"
| "zparse_shape [] p obj = Inr ([], [])"
| "zparse_shape ((k, t) # shape) p obj =
     (case zparse t (p @ [Key k]) (get_property obj k) of
        Inl e \<Rightarrow> Inl e
      | Inr (issues, out) \<Rightarrow>
          (case zparse_shape shape p obj of
             Inl e \<Rightarrow> Inl e
           | Inr (issues', outs) \<Rightarrow>
               Inr (issues @ issues',
                    (case out of
                       None \<Rightarrow> outs
                     | Some v \<Rightarrow> if k = ''__proto__'' then outs else (k, v) # outs))))"

datatype SafeParseReturn = ParseSuccess "jsval option" | ParseError "issue list"

definition safeParse :: "zod \<Rightarrow> jsval option \<Rightarrow> thrown + SafeParseReturn" where
  "safeParse t input =
    (case zparse t [] input of
       Inl e \<Rightarrow> Inl e
     | Inr (issues, out) \<Rightarrow> if issues = [] then Inr (ParseSuccess out) else Inr (ParseError issues))"

text \<open>\<^verbatim>\<open>validation.error.errors.map(e => e.message).join(', ')\<close>.\<close>

fun join_messages :: "string list \<Rightarrow> string" where
  "join_messages [] = []"
| "join_messages [m] = m"
| "join_messages (m # n # ms) = m @ '', '' @ join_messages (n # ms)"

section \<open>The schema manager\<close>

text \<open>\<^verbatim>\<open>ToolInputSchema\<close>, the shape a descriptor document must have.\<close>

definition ToolInputSchema :: zod where
  "ToolInputSchema =
    ZObject
      [(''name'', ZString),
       (''description'', ZString),
       (''inputSchema'',
          ZObject
            [(''type'', ZLiteral ''object''),
             (''properties'', ZOptional ZRecordAny),
             (''required'', ZOptional ZArrayOfString)]
            passthrough)]
      strip"

text \<open>The two \<^verbatim>\<open>Map\<close>s of the manager, in insertion order. \<^verbatim>\<open>Map.set\<close> on a key that
  is present replaces its value in place, else appends: \<^const>\<open>AList.update\<close>; \<^verbatim>\<open>Map.get\<close>
  is \<^const>\<open>map_of\<close>.\<close>

record SDKSchemaManager =
  schemas :: "(string \<times> jsval) list"
  zodSchemas :: "(string \<times> zod) list"

definition constructor :: SDKSchemaManager where
  "constructor = \<lparr>schemas = [], zodSchemas = []\<rparr>"

text \<open>The key \<^verbatim>\<open>schema.name\<close> of both maps. It is a string in every document that
  has passed \<^const>\<open>ToolInputSchema\<close>, and only those are ever stored.\<close>

definition name_of :: "jsval \<Rightarrow> string" where
  "name_of schema = (case field_of schema ''name'' of Some (JStr n) \<Rightarrow> n | _ \<Rightarrow> [])"

text \<open>The \<^verbatim>\<open>switch\<close> on \<^verbatim>\<open>propSchema.type\<close>.\<close>

definition base_type :: "jsval option \<Rightarrow> zod" where
  "base_type t =
    (if t = Some (JStr ''string'') then ZString
     else if t = Some (JStr ''boolean'') then ZBoolean
     else if t = Some (JStr ''integer'') then ZInt
     else if t = Some (JStr ''number'') then ZNumber
     else if t = Some (JStr ''object'') then ZRecordAny
     else ZAny)"

text \<open>\<^verbatim>\<open>required.includes(key)\<close> with \<^verbatim>\<open>required = inputSchema.required || []\<close>.\<close>

definition required_includes :: "jsval option \<Rightarrow> string \<Rightarrow> thrown + bool" where
  "required_includes required key =
    (if \<not> truthy required then Inr False
     else case required of
            Some (JArr vs) \<Rightarrow> Inr (JStr key \<in> set vs)
          | Some (JStr s) \<Rightarrow> Inr (String_includes s key)
          | _ \<Rightarrow> Inl (TypeError ''required.includes is not a function''))"

text \<open>The loop of \<^verbatim>\<open>createZodSchema\<close> over \<^verbatim>\<open>Object.entries(properties)\<close>.\<close>

fun compile_properties :: "jsval option \<Rightarrow> (string \<times> jsval) list \<Rightarrow> (string \<times> zod) list
                             \<Rightarrow> thrown + (string \<times> zod) list" where
  "compile_properties required [] properties = Inr properties"
| "compile_properties required ((key, propSchema) # entries) properties =
    (case field (Some propSchema) ''type'' of
       Inl e \<Rightarrow> Inl e
     | Inr t \<Rightarrow>
        (let zodType =
               (case field_of propSchema ''enum'' of
                  None \<Rightarrow> base_type t
                | Some values \<Rightarrow> if truthy (Some values) then ZEnum values else base_type t)
         in case required_includes required key of
              Inl e \<Rightarrow> Inl e
            | Inr req \<Rightarrow>
                compile_properties required entries
                  (assign properties key (if req then zodType else ZOptional zodType))))"

definition createZodSchema :: "jsval \<Rightarrow> SDKSchemaManager \<Rightarrow> thrown + SDKSchemaManager" where
  "createZodSchema toolSchema this =
    (case field (Some toolSchema) ''inputSchema'' of
       Inl e \<Rightarrow> Inl e
     | Inr None \<Rightarrow> Inr this
     | Inr (Some inputSchema) \<Rightarrow>
        if \<not> truthy (Some inputSchema) then Inr this
        else
          (case field_of inputSchema ''properties'' of
             None \<Rightarrow> Inr this
           | Some props \<Rightarrow>
              if \<not> truthy (Some props) then Inr this
              else
                (case compile_properties (field_of inputSchema ''required'')
                        (Object_entries props) [] of
                   Inl e \<Rightarrow> Inl e
                 | Inr properties \<Rightarrow>
                    Inr (this\<lparr>zodSchemas :=
                           AList.update (name_of toolSchema) (ZObject properties strip)
                             (zodSchemas this)\<rparr>))))"

subsection \<open>Loading\<close>

text \<open>
  The schema directory as \<^verbatim>\<open>loadSchemas\<close> meets it: \<^verbatim>\<open>fs.readdir\<close> fails or lists
  file names; for each file, \<^verbatim>\<open>fs.readFile\<close> followed by \<^verbatim>\<open>JSON.parse\<close> throws or
  yields a document. \<^verbatim>\<open>console.error\<close> output is collected as log entries.
\<close>

type_synonym document = "thrown + jsval"

type_synonym directory = "thrown + (string \<times> document) list"

datatype log_entry =
    InvalidSchemaStructure string "issue list"
  | LoadedSchemas nat
  | ErrorLoadingSchemas thrown

text \<open>The \<^verbatim>\<open>for\<close> loop over the \<^verbatim>\<open>.json\<close> files: the manager as the loop leaves it,
  the log, and the exception that ended the loop, if any.\<close>

fun load_files :: "(string \<times> document) list \<Rightarrow> SDKSchemaManager
                     \<Rightarrow> SDKSchemaManager \<times> log_entry list \<times> thrown option" where
  "load_files [] this = (this, [], None)"
| "load_files ((file, content) # files) this =
    (case content of
       Inl e \<Rightarrow> (this, [], Some e)
     | Inr schema \<Rightarrow>
        (case safeParse ToolInputSchema (Some schema) of
           Inl e \<Rightarrow> (this, [], Some e)
         | Inr (ParseSuccess d) \<Rightarrow>
            (let this1 = this\<lparr>schemas := AList.update (name_of schema) schema (schemas this)\<rparr>
             in case createZodSchema schema this1 of
                  Inl e \<Rightarrow> (this1, [], Some e)
                | Inr this2 \<Rightarrow> load_files files this2)
         | Inr (ParseError issues) \<Rightarrow>
            (case load_files files this of
               (this', logged, r) \<Rightarrow> (this', InvalidSchemaStructure file issues # logged, r))))"

definition loadSchemas :: "directory \<Rightarrow> SDKSchemaManager
                            \<Rightarrow> SDKSchemaManager \<times> log_entry list \<times> thrown option" where
  "loadSchemas dir this =
    (case dir of
       Inl e \<Rightarrow> (this, [ErrorLoadingSchemas e], Some e)
     | Inr files \<Rightarrow>
        (case load_files (filter (\<lambda>f. endsWith (fst f) ''.json'') files) this of
           (this', logged, None) \<Rightarrow> (this', logged @ [LoadedSchemas (length (schemas this'))], None)
         | (this', logged, Some e) \<Rightarrow> (this', logged @ [ErrorLoadingSchemas e], Some e)))"

definition reloadSchemas :: "directory \<Rightarrow> SDKSchemaManager
                              \<Rightarrow> SDKSchemaManager \<times> log_entry list \<times> thrown option" where
  "reloadSchemas dir this = loadSchemas dir (this\<lparr>schemas := [], zodSchemas := []\<rparr>)"

subsection \<open>Lookup, validation, defaults\<close>

definition getSchema :: "SDKSchemaManager \<Rightarrow> string \<Rightarrow> jsval option" where
  "getSchema this name = map_of (schemas this) name"

definition getAllSchemas :: "SDKSchemaManager \<Rightarrow> jsval list" where
  "getAllSchemas this = map snd (schemas this)"

datatype validation = Valid "jsval option" | Invalid string

definition validateInput :: "SDKSchemaManager \<Rightarrow> string \<Rightarrow> jsval option \<Rightarrow> thrown + validation" where
  "validateInput this schemaName input =
    (case map_of (zodSchemas this) schemaName of
       None \<Rightarrow> Inr (Invalid (''Schema not found: '' @ schemaName))
     | Some zodSchema \<Rightarrow>
        (case safeParse zodSchema input of
           Inl e \<Rightarrow> Inl e
         | Inr (ParseSuccess d) \<Rightarrow> Inr (Valid d)
         | Inr (ParseError issues) \<Rightarrow>
            Inr (Invalid (''Validation failed: '' @ join_messages (map issue_message issues)))))"

text \<open>\<^verbatim>\<open>'default' in propertySchema\<close>: the \<^verbatim>\<open>in\<close> operator throws on a primitive
  (V8's wording); no array or function has the property.\<close>

fun default_in :: "jsval \<Rightarrow> thrown + bool" where
  "default_in (JObj obj) = Inr (has_property obj ''default'')"
| "default_in (JArr vs) = Inr False"
| "default_in (JFunction f) = Inr False"
| "default_in v =
     Inl (TypeError (''Cannot use '' @ quote ''in'' @ '' operator to search for ''
                     @ quote ''default'' @ '' in '' @ js_String v))"

text \<open>The loop of \<^verbatim>\<open>applyDefaults\<close>, with \<^verbatim>\<open>result[key] = propertySchema.default\<close> as
  \<^const>\<open>assign\<close>.\<close>

fun apply_entries :: "(string \<times> jsval) list \<Rightarrow> (string \<times> jsval) list
                        \<Rightarrow> thrown + (string \<times> jsval) list" where
  "apply_entries [] result = Inr result"
| "apply_entries ((key, propertySchema) # entries) result =
    (if has_property result key then apply_entries entries result
     else
       (case default_in propertySchema of
          Inl e \<Rightarrow> Inl e
        | Inr False \<Rightarrow> apply_entries entries result
        | Inr True \<Rightarrow>
           (case field_of propertySchema ''default'' of
              None \<Rightarrow> apply_entries entries result
            | Some v \<Rightarrow> apply_entries entries (assign result key v))))"

definition applyDefaults :: "SDKSchemaManager \<Rightarrow> jsval option \<Rightarrow> string \<Rightarrow> thrown + jsval option" where
  "applyDefaults this input schemaName =
    (case getSchema this schemaName of
       None \<Rightarrow> Inr input
     | Some schema \<Rightarrow>
        if \<not> truthy (Some schema) then Inr input
        else
        (let result = (case input of None \<Rightarrow> [] | Some v \<Rightarrow> Object_entries v)
         in case field (Some schema) ''inputSchema'' of
              Inl e \<Rightarrow> Inl e
            | Inr inputSchema \<Rightarrow>
               (case field inputSchema ''properties'' of
                  Inl e \<Rightarrow> Inl e
                | Inr None \<Rightarrow> Inr (Some (JObj result))
                | Inr (Some props) \<Rightarrow>
                   if \<not> truthy (Some props) then Inr (Some (JObj result))
                   else
                     (case apply_entries (Object_entries props) result of
                        Inl e \<Rightarrow> Inl e
                      | Inr result' \<Rightarrow> Inr (Some (JObj result'))))))"

section \<open>Tool dispatch and the request handler\<close>

text \<open>A response \<^verbatim>\<open>{content: [{type: 'text', text}]}\<close>: the content blocks the source
  builds are all of type \<^verbatim>\<open>text\<close>.\<close>

datatype content_block = TextContent string

record ToolResponse =
  content :: "content_block list"

text \<open>A tool handler runs on the final arguments in a world \<open>'w\<close> (the child processes
  and network it drives), returns a response or throws, and leaves a new world.\<close>

type_synonym 'w tool_handler = "jsval option \<Rightarrow> 'w \<Rightarrow> (thrown + ToolResponse) \<times> 'w"

text \<open>The \<^verbatim>\<open>switch\<close> of \<^verbatim>\<open>getToolHandler\<close>. \<open>modules name\<close> is the outcome of
  \<^verbatim>\<open>(await import('./name.js')).default\<close>.\<close>

definition tool_names :: "string list" where
  "tool_names =
    [''aio-app-deploy'', ''aio-app-dev'', ''aio-dev-invoke'', ''aio-login'', ''aio-where'',
     ''aio-app-use'', ''aio-configure-global'', ''onboard'', ''commerce-event-subscribe'',
     ''search-commerce-app-builder-docs'']"

definition getToolHandler :: "(string \<Rightarrow> thrown + 'w tool_handler option) \<Rightarrow> string
                                \<Rightarrow> thrown + 'w tool_handler option" where
  "getToolHandler modules name = (if name \<in> set tool_names then modules name else Inr None)"

text \<open>Modelled from the spec: the call envelope \<^verbatim>\<open>CallToolRequestSchema\<close>, a constant
  the source imports from the protocol SDK, which is not among the sources:
  \<^verbatim>\<open>{name: string, arguments: mapping}\<close> under \<^verbatim>\<open>params\<close>, in the SDK's request
  framing, where the method is \<^verbatim>\<open>tools/call\<close> and \<^verbatim>\<open>params\<close> may carry a \<^verbatim>\<open>_meta\<close>
  object with a progress token.\<close>

definition CallToolRequestSchema :: zod where
  "CallToolRequestSchema =
    ZObject
      [(''method'', ZLiteral ''tools/call''),
       (''params'',
          ZObject
            [(''_meta'',
                ZOptional (ZObject [(''progressToken'', ZOptional ZUnionStringInt)] passthrough)),
             (''name'', ZString),
             (''arguments'', ZOptional ZRecordAny)]
            passthrough)]
      strip"

definition validateToolRequest :: "jsval option \<Rightarrow> thrown + validation" where
  "validateToolRequest request =
    (case safeParse CallToolRequestSchema request of
       Inl e \<Rightarrow> Inl e
     | Inr (ParseSuccess d) \<Rightarrow> Inr (Valid d)
     | Inr (ParseError issues) \<Rightarrow>
        Inr (Invalid (''Invalid tool request: '' @ join_messages (map issue_message issues))))"

text \<open>The cross mark U+274C that opens the two validation responses, in UTF-8.\<close>

definition cross_mark :: string where
  "cross_mark = [CHR 0xE2, CHR 0x9D, CHR 0x8C]"

text \<open>The body of the \<^verbatim>\<open>try\<close> block of the call handler.\<close>

definition call_tool :: "(string \<Rightarrow> thrown + 'w tool_handler option) \<Rightarrow> SDKSchemaManager
                           \<Rightarrow> string \<Rightarrow> jsval option \<Rightarrow> 'w \<Rightarrow> (thrown + ToolResponse) \<times> 'w" where
  "call_tool modules this name args w =
    (case validateInput this name args of
       Inl e \<Rightarrow> (Inl e, w)
     | Inr (Invalid err) \<Rightarrow>
        (Inr \<lparr>content = [TextContent (cross_mark @ '' Input validation failed: '' @ err)]\<rparr>, w)
     | Inr (Valid d) \<Rightarrow>
        (case applyDefaults this d name of
           Inl e \<Rightarrow> (Inl e, w)
         | Inr validatedArgs \<Rightarrow>
            (case getToolHandler modules name of
               Inl e \<Rightarrow> (Inl e, w)
             | Inr None \<Rightarrow> (Inl (Error (''Unknown tool: '' @ name)), w)
             | Inr (Some toolHandler) \<Rightarrow> toolHandler validatedArgs w)))"

text \<open>The \<^verbatim>\<open>try\<close> block with its \<^verbatim>\<open>catch\<close>.\<close>

definition try_call_tool :: "(string \<Rightarrow> thrown + 'w tool_handler option) \<Rightarrow> SDKSchemaManager
                           \<Rightarrow> string \<Rightarrow> jsval option \<Rightarrow> 'w \<Rightarrow> (thrown + ToolResponse) \<times> 'w" where
  "try_call_tool modules this name args w =
    (case call_tool modules this name args w of
       (Inl e, w') \<Rightarrow> (Inr \<lparr>content = [TextContent (''Error: '' @ message e)]\<rparr>, w')
     | (Inr response, w') \<Rightarrow> (Inr response, w'))"

text \<open>
  The handler registered for \<^verbatim>\<open>CallToolRequestSchema\<close>. The envelope check and the
  destructuring of \<^verbatim>\<open>request.params\<close> stand before the \<^verbatim>\<open>try\<close>: what they throw
  escapes. A name that is not a string is no key of the validator cache, and is printed
  into the message.
\<close>

definition handle_call_tool :: "(string \<Rightarrow> thrown + 'w tool_handler option) \<Rightarrow> SDKSchemaManager
                           \<Rightarrow> jsval option \<Rightarrow> 'w \<Rightarrow> (thrown + ToolResponse) \<times> 'w" where
  "handle_call_tool modules this request w =
    (case validateToolRequest request of
       Inl e \<Rightarrow> (Inl e, w)
     | Inr (Invalid err) \<Rightarrow>
        (Inr \<lparr>content = [TextContent (cross_mark @ '' Invalid request format: '' @ err)]\<rparr>, w)
     | Inr (Valid d) \<Rightarrow>
        (case field request ''params'' of
           Inl e \<Rightarrow> (Inl e, w)
         | Inr None \<Rightarrow>
            (Inl (TypeError (''Cannot destructure property '' @ quote ''name'' @ '' of ''
                             @ quote ''request.params'' @ '' as it is undefined.'')), w)
         | Inr (Some JNull) \<Rightarrow>
            (Inl (TypeError (''Cannot destructure property '' @ quote ''name'' @ '' of ''
                             @ quote ''request.params'' @ '' as it is null.'')), w)
         | Inr (Some params) \<Rightarrow>
            (case field_of params ''name'' of
               Some (JStr name) \<Rightarrow> try_call_tool modules this name (field_of params ''arguments'') w
             | other \<Rightarrow>
                (Inr \<lparr>content = [TextContent (cross_mark @ '' Input validation failed: ''
                                                 @ ''Schema not found: '' @ template other)]\<rparr>, w))))"

section \<open>The process executor\<close>

text \<open>Modelled from the spec: \<^verbatim>\<open>executeCommand\<close> of \<^verbatim>\<open>utils/command-executor.js\<close>,
  which the tool handlers import and which is not among the sources. The operating
  system either fails to spawn the command, with a message, or runs it: the child
  writes chunks to its two streams and exits with a code.\<close>

datatype stream_chunk = Stdout string | Stderr string

datatype child_process = SpawnFailure string | Exited "stream_chunk list" int

text \<open>The result \<^verbatim>\<open>{success, output, error}\<close>.\<close>

record ExecutionResult =
  result_success :: bool
  result_output :: string
  result_error :: "string option"

fun stdout_of :: "stream_chunk list \<Rightarrow> string" where
  "stdout_of [] = []"
| "stdout_of (Stdout s # chunks) = s @ stdout_of chunks"
| "stdout_of (Stderr s # chunks) = stdout_of chunks"

fun stderr_of :: "stream_chunk list \<Rightarrow> string" where
  "stderr_of [] = []"
| "stderr_of (Stdout s # chunks) = stderr_of chunks"
| "stderr_of (Stderr s # chunks) = s @ stderr_of chunks"

definition executeCommand :: "(string \<Rightarrow> string list \<Rightarrow> child_process) \<Rightarrow> string \<Rightarrow> string list
                                \<Rightarrow> thrown + ExecutionResult" where
  "executeCommand spawn command argv =
    (case spawn command argv of
       SpawnFailure msg \<Rightarrow> Inr \<lparr>result_success = False, result_output = [], result_error = Some msg\<rparr>
     | Exited chunks code \<Rightarrow>
        Inr \<lparr>result_success = (code = 0), result_output = stdout_of chunks,
            result_error = Some (stderr_of chunks)\<rparr>)"

section \<open>Notions used in the statements\<close>

text \<open>A document has a valid structure when \<^const>\<open>ToolInputSchema\<close> accepts it; otherwise the
  load logs the issues the check has found.\<close>

definition valid_structure :: "jsval \<Rightarrow> bool" where
  "valid_structure schema =
    (case safeParse ToolInputSchema (Some schema) of Inr (ParseSuccess d) \<Rightarrow> True | _ \<Rightarrow> False)"


text \<open>The guard of \<^const>\<open>createZodSchema\<close>: \<^verbatim>\<open>inputSchema\<close> and its \<^verbatim>\<open>properties\<close> are
  truthy. \<open>property_schemas\<close> lists \<^verbatim>\<open>Object.entries(inputSchema.properties)\<close>.\<close>

definition declares_properties :: "jsval \<Rightarrow> bool" where
  "declares_properties schema =
    (case field_of schema ''inputSchema'' of
       None \<Rightarrow> False
     | Some inputSchema \<Rightarrow> truthy (Some inputSchema) \<and> truthy (field_of inputSchema ''properties''))"

definition property_schemas :: "jsval \<Rightarrow> (string \<times> jsval) list" where
  "property_schemas schema =
    (case field_of schema ''inputSchema'' of
       None \<Rightarrow> []
     | Some inputSchema \<Rightarrow>
        (case field_of inputSchema ''properties'' of
           None \<Rightarrow> []
         | Some props \<Rightarrow> Object_entries props))"

text \<open>The files of a directory that the load reads, the documents among them that were
  read and parsed, and those of them with a valid structure, in directory order.\<close>

definition json_files :: "(string \<times> document) list \<Rightarrow> (string \<times> document) list" where
  "json_files files = filter (\<lambda>f. endsWith (fst f) ''.json'') files"

fun parsed :: "(string \<times> document) list \<Rightarrow> (string \<times> jsval) list" where
  "parsed [] = []"
| "parsed ((f, Inl e) # files) = parsed files"
| "parsed ((f, Inr d) # files) = (f, d) # parsed files"

definition accepted :: "(string \<times> document) list \<Rightarrow> jsval list" where
  "accepted files = filter valid_structure (map snd (parsed files))"

definition descriptors :: "(string \<times> document) list \<Rightarrow> jsval list" where
  "descriptors files = accepted (json_files files)"


text \<open>Schemas without \<^verbatim>\<open>z.enum\<close>: parsing against them cannot throw.\<close>

fun enum_free :: "zod \<Rightarrow> bool" and enum_free_shape :: "(string \<times> zod) list \<Rightarrow> bool" where
  "enum_free (ZEnum values) = False"
| "enum_free (ZOptional t) = enum_free t"
| "enum_free (ZObject shape u) = enum_free_shape shape"
| "enum_free ZString = True"
| "enum_free ZBoolean = True"
| "enum_free ZNumber = True"
| "enum_free ZInt = True"
| "enum_free ZAny = True"
| "enum_free (ZLiteral s) = True"
| "enum_free ZRecordAny = True"
| "enum_free ZArrayOfString = True"
| "enum_free ZUnionStringInt = True"
| "enum_free_shape [] = True"
| "enum_free_shape ((k, t) # shape) = (enum_free t \<and> enum_free_shape shape)"

text \<open>The \<^verbatim>\<open>name\<close> and \<^verbatim>\<open>arguments\<close> the call handler destructures from
  \<^verbatim>\<open>request.params\<close>.\<close>

definition request_params :: "jsval option \<Rightarrow> jsval option" where
  "request_params request = (case request of None \<Rightarrow> None | Some v \<Rightarrow> field_of v ''params'')"

definition request_name :: "jsval option \<Rightarrow> string" where
  "request_name request =
    (case request_params request of
       None \<Rightarrow> []
     | Some params \<Rightarrow> (case field_of params ''name'' of Some (JStr name) \<Rightarrow> name | _ \<Rightarrow> []))"

definition request_arguments :: "jsval option \<Rightarrow> jsval option" where
  "request_arguments request =
    (case request_params request of None \<Rightarrow> None | Some params \<Rightarrow> field_of params ''arguments'')"

text \<open>A validator accepts a value when parsing it adds no issue; the reasons it reports
  are the messages of the issues. The reasons of a shape on an object are those of its
  properties, in declaration order.\<close>

definition accepts :: "zod \<Rightarrow> jsval option \<Rightarrow> bool" where
  "accepts t v = (case zparse t [] v of Inr ([], out) \<Rightarrow> True | _ \<Rightarrow> False)"



text \<open>The validators the loop of \<^const>\<open>compile_properties\<close> builds when every enum list
  is an array: a base rule or an enum, optional or not. The required rules are those that
  do not accept \<^verbatim>\<open>undefined\<close>.\<close>

fun property_rule :: "zod \<Rightarrow> bool" where
  "property_rule ZString = True"
| "property_rule ZBoolean = True"
| "property_rule ZNumber = True"
| "property_rule ZInt = True"
| "property_rule ZAny = True"
| "property_rule ZRecordAny = True"
| "property_rule (ZEnum values) = (case values of JArr vs \<Rightarrow> True | _ \<Rightarrow> False)"
| "property_rule (ZOptional t) = property_rule t"
| "property_rule (ZLiteral s) = False"
| "property_rule ZArrayOfString = False"
| "property_rule ZUnionStringInt = False"
| "property_rule (ZObject shape u) = False"


text \<open>Every \<^verbatim>\<open>enum\<close> of the property schemas that is truthy is an array.\<close>

definition array_enums :: "(string \<times> jsval) list \<Rightarrow> bool" where
  "array_enums entries =
    list_all
      (\<lambda>kp. case field_of (snd kp) ''enum'' of
               None \<Rightarrow> True
             | Some (JArr vs) \<Rightarrow> True
             | Some e \<Rightarrow> \<not> truthy (Some e))
      entries"


text \<open>The default a property schema declares.\<close>

definition declared_default :: "jsval \<Rightarrow> jsval option" where
  "declared_default propertySchema =
    (case propertySchema of JObj p \<Rightarrow> map_of p ''default'' | _ \<Rightarrow> None)"

text \<open>The validator \<^const>\<open>createZodSchema\<close> caches for a descriptor, if any.\<close>

definition compiled :: "jsval \<Rightarrow> zod option" where
  "compiled d =
    (case createZodSchema d constructor of
       Inl e \<Rightarrow> None
     | Inr this \<Rightarrow> map_of (zodSchemas this) (name_of d))"

section \<open>Example inputs\<close>

text \<open>The descriptor of the README's example tool, a descriptor with no \<^verbatim>\<open>properties\<close>,
  a document without a name, and descriptors with a property named \<^verbatim>\<open>__proto__\<close>,
  with a numeric enum and with one optional flag.\<close>

definition my_tool :: jsval where
  "my_tool =
    JObj [(''name'', JStr ''my-tool''),
          (''description'', JStr ''Description of what this tool does''),
          (''inputSchema'',
             JObj [(''type'', JStr ''object''),
                   (''properties'',
                      JObj [(''param1'', JObj [(''type'', JStr ''string''),
                                               (''description'', JStr ''Description of parameter 1'')]),
                            (''param2'', JObj [(''type'', JStr ''boolean''),
                                               (''description'', JStr ''Description of parameter 2''),
                                               (''default'', JBool False)])]),
                   (''required'', JArr [JStr ''param1''])])]"

definition descriptor_without_properties :: jsval where
  "descriptor_without_properties =
    JObj [(''name'', JStr ''aio-where''), (''description'', JStr ''Show the configuration''),
          (''inputSchema'', JObj [(''type'', JStr ''object'')])]"

definition nameless :: jsval where
  "nameless = JObj [(''description'', JStr ''no name''), (''inputSchema'', JObj [(''type'', JStr ''object'')])]"

definition proto_tool :: jsval where
  "proto_tool =
    JObj [(''name'', JStr ''onboard''),
          (''description'', JStr ''Describe an object''),
          (''inputSchema'',
             JObj [(''type'', JStr ''object''),
                   (''properties'',
                      JObj [(''__proto__'', JObj [(''type'', JStr ''string''),
                                                  (''default'', JStr ''Object'')])])])]"

definition level_tool :: jsval where
  "level_tool =
    JObj [(''name'', JStr ''set-level''),
          (''description'', JStr ''Set the log level''),
          (''inputSchema'',
             JObj [(''type'', JStr ''object''),
                   (''properties'',
                      JObj [(''level'', JObj [(''type'', JStr ''integer''),
                                              (''enum'', JArr [JNum 1 ''1'', JNum 2 ''2'', JNum 3 ''3''])])])])]"

definition login_tool :: jsval where
  "login_tool =
    JObj [(''name'', JStr ''aio-login''),
          (''description'', JStr ''Log in to Adobe I/O''),
          (''inputSchema'',
             JObj [(''type'', JStr ''object''),
                   (''properties'',
                      JObj [(''force'', JObj [(''type'', JStr ''boolean''),
                                              (''default'', JBool False)])])])]"

text \<open>Directories: one with a document that fails the shape check and a file that is no
  \<^verbatim>\<open>.json\<close>, one whose first file is empty, so that \<^verbatim>\<open>JSON.parse\<close> throws.\<close>

definition example_files :: "(string \<times> document) list" where
  "example_files =
    [(''my-tool.json'', Inr my_tool),
     (''README.md'', Inr (JStr ''notes'')),
     (''nameless.json'', Inr nameless),
     (''aio-where.json'', Inr descriptor_without_properties)]"


text \<open>Managers as \<^const>\<open>loadSchemas\<close> leaves them.\<close>

definition example_manager :: SDKSchemaManager where
  "example_manager =
    \<lparr>schemas = [(''my-tool'', my_tool), (''aio-where'', descriptor_without_properties)],
     zodSchemas = [(''my-tool'', ZObject [(''param1'', ZString), (''param2'', ZOptional ZBoolean)] strip)]\<rparr>"

definition example_tool_manager :: SDKSchemaManager where
  "example_tool_manager =
    \<lparr>schemas = [(''my-tool'', my_tool)],
     zodSchemas = [(''my-tool'', ZObject [(''param1'', ZString), (''param2'', ZOptional ZBoolean)] strip)]\<rparr>"

definition proto_manager :: SDKSchemaManager where
  "proto_manager = \<lparr>schemas = [(''onboard'', proto_tool)], zodSchemas = [(''onboard'', ZObject [] strip)]\<rparr>"

definition level_manager :: SDKSchemaManager where
  "level_manager =
    \<lparr>schemas = [(''set-level'', level_tool)],
     zodSchemas =
       [(''set-level'',
         ZObject [(''level'', ZOptional (ZEnum (JArr [JNum 1 ''1'', JNum 2 ''2'', JNum 3 ''3''])))]
           strip)]\<rparr>"

definition login_manager :: SDKSchemaManager where
  "login_manager =
    \<lparr>schemas = [(''aio-login'', login_tool)],
     zodSchemas = [(''aio-login'', ZObject [(''force'', ZOptional ZBoolean)] strip)]\<rparr>"

text \<open>A call request, a module table whose handlers throw, one whose handlers record the
  arguments they are called with, and an operating system that knows two commands.\<close>

definition call_request :: "string \<Rightarrow> (string \<times> jsval) list \<Rightarrow> jsval option" where
  "call_request name args =
    Some (JObj [(''method'', JStr ''tools/call''),
                (''params'', JObj [(''name'', JStr name), (''arguments'', JObj args)])])"

definition failing_modules :: "string \<Rightarrow> thrown + nat tool_handler option" where
  "failing_modules name = Inr (Some (\<lambda>args w. (Inl (Error ''spawn aio ENOENT''), Suc w)))"

definition recording_modules :: "string \<Rightarrow> thrown + (jsval option list) tool_handler option" where
  "recording_modules name =
    Inr (Some (\<lambda>args w. (Inr \<lparr>content = [TextContent ''done'']\<rparr>, w @ [args])))"

definition example_spawn :: "string \<Rightarrow> string list \<Rightarrow> child_process" where
  "example_spawn command argv =
    (if command = ''echo'' then Exited [Stdout ''hello'', Stderr ''warning'', Stdout ''!''] 0
     else if command = ''false'' then Exited [] 1
     else SpawnFailure (''spawn '' @ command @ '' ENOENT''))"

section \<open>Property reads and maps\<close>

lemmas eval_defs = loadSchemas_def constructor_def descriptor_without_properties_def endsWith_def
      safeParse_def ToolInputSchema_def get_property_def Object_prototype_methods_def
      createZodSchema_def name_of_def my_tool_def nameless_def example_files_def example_manager_def
      invalid_type_def base_type_def required_includes_def assign_def define_property_def
      array_index_def is_digit_def

lemmas request_defs = call_request_def validateToolRequest_def CallToolRequestSchema_def safeParse_def
  request_name_def request_arguments_def request_params_def

lemma get_property_simps [simp]:
  "get_property obj ''inputSchema'' = map_of obj ''inputSchema''"
  "get_property obj ''name'' = map_of obj ''name''"
  "get_property obj ''description'' = map_of obj ''description''"
  "get_property obj ''type'' = map_of obj ''type''"
  "get_property obj ''properties'' = map_of obj ''properties''"
  "get_property obj ''required'' = map_of obj ''required''"
  "get_property obj ''enum'' = map_of obj ''enum''"
  "get_property obj ''default'' = map_of obj ''default''"
  by (simp_all add: get_property_def Object_prototype_methods_def split: option.splits)

lemma get_property_simps2 [simp]:
  "get_property obj ''params'' = map_of obj ''params''"
  "get_property obj ''arguments'' = map_of obj ''arguments''"
  "get_property obj ''method'' = map_of obj ''method''"
  "get_property obj ''_meta'' = map_of obj ''_meta''"
  "get_property obj ''progressToken'' = map_of obj ''progressToken''"
  by (simp_all add: get_property_def Object_prototype_methods_def split: option.splits)

lemma get_property_None: "get_property obj k = None \<longleftrightarrow> \<not> has_property obj k"
proof -
  have "map_of obj k = None \<longleftrightarrow> k \<notin> set (map fst obj)"
    by (simp add: map_of_eq_None_iff)
  moreover have "map_of Object_prototype_methods k = None \<longleftrightarrow>
                 k \<notin> set (map fst Object_prototype_methods)"
    by (simp add: map_of_eq_None_iff)
  ultimately show ?thesis
    by (auto simp: get_property_def has_property_def inherited_def split: option.splits)
qed

lemma has_property_default: "has_property p ''default'' \<longleftrightarrow> map_of p ''default'' \<noteq> None"
  by (auto simp: has_property_def inherited_def Object_prototype_methods_def map_of_eq_None_iff)

lemma has_property_append:
  "k \<notin> fst ` set acc \<Longrightarrow> has_property (obj @ acc) k = has_property obj k"
  by (auto simp: has_property_def)



lemma set_update_subset: "set (AList.update k v al) \<subseteq> insert (k, v) (set al)"
  by (induction al) auto

lemma define_property_Nil [simp]: "define_property [] k v = [(k, v)]"
  by (simp add: define_property_def split: option.splits)

lemma set_define_property [simp]: "set (define_property obj k v) = insert (k, v) (set obj)"
proof (cases "array_index k")
  case None
  then show ?thesis by (simp add: define_property_def)
next
  case (Some i)
  have "set (takeWhile (index_below i) obj) \<union> set (dropWhile (index_below i) obj) = set obj"
    by (metis set_append takeWhile_dropWhile_id)
  with Some show ?thesis by (auto simp: define_property_def)
qed

lemma map_of_inserted:
  "k \<notin> fst ` set (xs @ ys) \<Longrightarrow> map_of (xs @ (k, v) # ys) = (map_of (xs @ ys))(k \<mapsto> v)"
  by (induction xs) (auto simp: fun_upd_twist)

lemma map_of_define_property:
  assumes "k \<notin> fst ` set obj"
  shows "map_of (define_property obj k v) = (map_of obj)(k \<mapsto> v)"
proof (cases "array_index k")
  case None
  from map_of_inserted [of k obj "[]" v] assms None show ?thesis
    by (simp add: define_property_def)
next
  case (Some i)
  from map_of_inserted [of k "takeWhile (index_below i) obj" "dropWhile (index_below i) obj" v]
    assms Some show ?thesis
    by (simp add: define_property_def)
qed

lemma set_assign_subset: "set (assign obj k v) \<subseteq> insert (k, v) (set obj)"
  using set_update_subset [of k v obj] by (auto simp: assign_def)

lemma assign_keys_eq:
  "k \<noteq> ''__proto__'' \<Longrightarrow> fst ` set (assign obj k v) = insert k (fst ` set obj)"
  by (auto simp: assign_def dom_update)

lemma map_of_assign:
  "k \<noteq> ''__proto__'' \<Longrightarrow> map_of (assign obj k v) = (map_of obj)(k \<mapsto> v)"
  by (simp add: assign_def update_conv' map_of_define_property)

lemma has_property_assign:
  "has_property (assign obj k v) k' \<longleftrightarrow> has_property obj k' \<or> k' = k"
  by (auto simp: has_property_def inherited_def assign_def dom_update)



lemma fold_update_names:
  "fst ` set (fold (\<lambda>d. AList.update (f d) d) ds al) = fst ` set al \<union> f ` set ds"
  by (induction ds arbitrary: al) (auto simp: dom_update)

section \<open>Parsing\<close>

subsection \<open>What a successful parse says about the input\<close>

lemma zparse_shape_Cons_ok:
  assumes "zparse_shape ((k, t) # shape) p obj = Inr ([], out)"
  obtains v outs where "zparse t (p @ [Key k]) (get_property obj k) = Inr ([], v)"
    "zparse_shape shape p obj = Inr ([], outs)"
  using assms by (auto split: sum.splits prod.splits)

lemma zparse_ZString_ok: "zparse ZString p i = Inr ([], v) \<Longrightarrow> \<exists>s. i = Some (JStr s)"
  by (auto split: option.splits jsval.splits)

lemma zparse_ZLiteral_ok: "zparse (ZLiteral s) p i = Inr ([], v) \<Longrightarrow> i = Some (JStr s)"
  by (auto split: if_splits)




lemma zparse_ZObject_ok:
  assumes "zparse (ZObject shape u) p i = Inr ([], v)"
  obtains obj out where "i = Some (JObj obj)" "zparse_shape shape p obj = Inr ([], out)"
  using assms by (auto split: option.splits jsval.splits sum.splits prod.splits)

lemma zparse_shape_ok:
  "zparse_shape shape p obj = Inr ([], out) \<Longrightarrow> (k, t) \<in> set shape \<Longrightarrow>
   \<exists>v. zparse t (p @ [Key k]) (get_property obj k) = Inr ([], v)"
proof (induction shape arbitrary: out)
  case Nil
  then show ?case by simp
next
  case (Cons kt shape)
  obtain k' t' where kt: "kt = (k', t')" by (cases kt)
  from zparse_shape_Cons_ok [OF Cons.prems(1) [unfolded kt]] obtain v outs
    where v: "zparse t' (p @ [Key k']) (get_property obj k') = Inr ([], v)"
      and outs: "zparse_shape shape p obj = Inr ([], outs)" by blast
  from Cons.prems(2) kt consider "(k, t) = (k', t')" | "(k, t) \<in> set shape" by auto
  then show ?case
  proof cases
    case 1
    with v show ?thesis by auto
  next
    case 2
    from Cons.IH [OF outs 2] show ?thesis .
  qed
qed

subsection \<open>Parsing without enums returns\<close>

lemma enum_free_zparse:
  "enum_free t \<Longrightarrow> \<exists>r. zparse t p input = Inr r"
  "enum_free_shape shape \<Longrightarrow> \<exists>r. zparse_shape shape p obj = Inr r"
proof (induction t p input and shape p obj rule: zparse_zparse_shape.induct)
  case (12 shape u p input)
  then show ?case by (auto split: option.splits jsval.splits sum.splits)
next
  case (14 k t shape p obj)
  from "14.prems" have et: "enum_free t" and es: "enum_free_shape shape" by simp_all
  from "14.IH"(1) [OF et] obtain b
    where b: "zparse t (p @ [Key k]) (get_property obj k) = Inr b" by blast
  obtain x y where xy: "(x, y) = b" by (cases b) auto
  from "14.IH"(2) [OF b xy es] obtain r where r: "zparse_shape shape p obj = Inr r" by blast
  from b xy r show ?case by (cases r) auto
qed (auto split: option.splits jsval.splits)

lemma safeParse_ToolInputSchema: "\<exists>r. safeParse ToolInputSchema (Some d) = Inr r"
proof -
  have "enum_free ToolInputSchema" by (simp add: ToolInputSchema_def)
  from enum_free_zparse(1) [OF this] obtain r where "zparse ToolInputSchema [] (Some d) = Inr r"
    by blast
  then show ?thesis by (cases r) (simp add: safeParse_def)
qed

lemma validateToolRequest_not_thrown: "validateToolRequest request \<noteq> Inl e"
proof -
  have "enum_free CallToolRequestSchema" by (simp add: CallToolRequestSchema_def)
  from enum_free_zparse(1) [OF this] obtain r where "zparse CallToolRequestSchema [] request = Inr r"
    by blast
  then show ?thesis by (cases r) (simp add: validateToolRequest_def safeParse_def)
qed

subsection \<open>Object schemas look at their shape keys only\<close>



subsection \<open>Property validators report at most one issue, whatever the path\<close>







lemma enum_accepts:
  "accepts (ZEnum (JArr vs)) v \<longleftrightarrow> (\<exists>s. v = Some (JStr s) \<and> JStr s \<in> set vs)"
  by (auto simp: accepts_def enum_parse_def split: option.splits jsval.splits)

lemma optional_enum_accepts:
  "accepts (ZOptional (ZEnum (JArr vs))) v \<longleftrightarrow> (v = None \<or> (\<exists>s. v = Some (JStr s) \<and> JStr s \<in> set vs))"
  by (auto simp: accepts_def enum_parse_def split: option.splits jsval.splits)

section \<open>Descriptors and their validators\<close>


lemma declares_propertiesE:
  assumes "declares_properties d"
  obtains inp props where "field_of d ''inputSchema'' = Some inp" "truthy (Some inp)"
    "field_of inp ''properties'' = Some props" "truthy (Some props)"
proof -
  from assms obtain inp where inp: "field_of d ''inputSchema'' = Some inp"
    and ti: "truthy (Some inp)" and tp: "truthy (field_of inp ''properties'')"
    by (auto simp: declares_properties_def split: option.splits)
  from tp obtain props where "field_of inp ''properties'' = Some props"
    by (cases "field_of inp ''properties''") auto
  with inp ti tp that show thesis by auto
qed

lemma assign_keys: "fst ` set (assign obj k v) \<subseteq> insert k (fst ` set obj)"
  by (auto simp: assign_def dom_update)



lemma createZodSchema_schemas:
  "createZodSchema d this = Inr this' \<Longrightarrow> schemas this' = schemas this"
  by (auto simp: createZodSchema_def split: sum.splits option.splits if_splits)

lemma createZodSchema_cases:
  "createZodSchema d this = Inr this' \<Longrightarrow>
   (if declares_properties d
    then \<exists>z. zodSchemas this' = AList.update (name_of d) z (zodSchemas this)
    else zodSchemas this' = zodSchemas this)"
  by (cases d) (auto simp: createZodSchema_def declares_properties_def
      split: sum.splits option.splits if_splits)

lemma createZodSchema_names:
  assumes "createZodSchema d this = Inr this'"
  shows "fst ` set (zodSchemas this') =
     fst ` set (zodSchemas this) \<union> (if declares_properties d then {name_of d} else {})"
proof (cases "declares_properties d")
  case True
  with createZodSchema_cases [OF assms] obtain z
    where "zodSchemas this' = AList.update (name_of d) z (zodSchemas this)" by auto
  with True show ?thesis by (simp add: dom_update)
next
  case False
  with createZodSchema_cases [OF assms] show ?thesis by simp
qed



lemma property_rule_base_type: "property_rule (base_type t)"
  by (simp add: base_type_def)

lemma compile_properties_rules:
  assumes "compile_properties required entries acc = Inr props"
    and "array_enums entries"
    and "\<forall>kt \<in> set acc. property_rule (snd kt)"
  shows "\<forall>kt \<in> set props. property_rule (snd kt)"
  using assms
proof (induction entries arbitrary: acc)
  case Nil
  then show ?case by simp
next
  case (Cons kp entries)
  obtain key propSchema where kp: "kp = (key, propSchema)" by (cases kp)
  let ?zodType = "case field_of propSchema ''enum'' of
                    None \<Rightarrow> base_type (field_of propSchema ''type'')
                  | Some vals \<Rightarrow> if truthy (Some vals) then ZEnum vals
                                else base_type (field_of propSchema ''type'')"
  from Cons.prems(2) kp have ae: "array_enums entries"
    and e: "case field_of propSchema ''enum'' of None \<Rightarrow> True | Some (JArr vs) \<Rightarrow> True
            | Some e \<Rightarrow> \<not> truthy (Some e)"
    by (simp_all add: array_enums_def)
  from e have z: "property_rule ?zodType"
    by (auto simp: property_rule_base_type split: option.splits jsval.splits)
  from Cons.prems(1) kp have "\<exists>t. field (Some propSchema) ''type'' = Inr t"
    by (auto split: sum.splits)
  then have f: "field (Some propSchema) ''type'' = Inr (field_of propSchema ''type'')"
    by (cases propSchema) auto
  from Cons.prems(1) kp f have "\<exists>req. required_includes required key = Inr req"
    by (auto simp: Let_def split: sum.splits)
  then obtain req where rq: "required_includes required key = Inr req" ..
  from Cons.prems(1) kp f rq
  have c: "compile_properties required entries
                (assign acc key (if req then ?zodType else ZOptional ?zodType)) = Inr props"
    by (simp add: Let_def)
  have "\<forall>kt \<in> set (assign acc key (if req then ?zodType else ZOptional ?zodType)).
          property_rule (snd kt)"
    using Cons.prems(3) z set_assign_subset [of acc key "if req then ?zodType else ZOptional ?zodType"]
    by auto
  from Cons.IH [OF c ae this] show ?case .
qed

lemma createZodSchema_rules:
  assumes "createZodSchema d this0 = Inr this" and "declares_properties d"
    and "array_enums (property_schemas d)"
  obtains shape where "map_of (zodSchemas this) (name_of d) = Some (ZObject shape strip)"
    "\<forall>kt \<in> set shape. property_rule (snd kt)"
proof -
  from declares_propertiesE [OF assms(2)] obtain inp props
    where inp: "field_of d ''inputSchema'' = Some inp"
    and ti: "truthy (Some inp)" and props: "field_of inp ''properties'' = Some props"
    and tp: "truthy (Some props)" by blast
  from inp have nn: "field (Some d) ''inputSchema'' = Inr (Some inp)"
    by (cases d) simp_all
  from assms(1) nn inp ti props tp obtain shape
    where c: "compile_properties (field_of inp ''required'') (Object_entries props) [] = Inr shape"
      and t: "this = this0\<lparr>zodSchemas := AList.update (name_of d) (ZObject shape strip) (zodSchemas this0)\<rparr>"
    by (auto simp: createZodSchema_def split: sum.splits)
  from assms(3) inp props have "array_enums (Object_entries props)"
    by (simp add: property_schemas_def)
  from compile_properties_rules [OF c this] have "\<forall>kt \<in> set shape. property_rule (snd kt)"
    by simp
  moreover from t have "map_of (zodSchemas this) (name_of d) = Some (ZObject shape strip)"
    by (simp add: update_conv')
  ultimately show thesis using that by blast
qed

section \<open>Loading the schema directory\<close>

lemma load_files_schemas:
  "load_files files this = (this', logged, None) \<Longrightarrow>
   schemas this' = fold (\<lambda>d. AList.update (name_of d) d) (accepted files) (schemas this)"
proof (induction files arbitrary: this this' logged)
  case Nil
  then show ?case by (simp add: accepted_def)
next
  case (Cons fc files)
  obtain fname content where fc: "fc = (fname, content)" by (cases fc)
  show ?case
  proof (cases content)
    case (Inl e)
    with Cons.prems fc show ?thesis by simp
  next
    case (Inr schema)
    show ?thesis
    proof (cases "safeParse ToolInputSchema (Some schema)")
      case (Inl e)
      with Cons.prems fc Inr show ?thesis by simp
    next
      case sp: (Inr res)
      show ?thesis
      proof (cases res)
        case (ParseSuccess d)
        let ?this1 = "this\<lparr>schemas := AList.update (name_of schema) schema (schemas this)\<rparr>"
        from sp ParseSuccess have v: "valid_structure schema" by (simp add: valid_structure_def)
        from Cons.prems fc Inr sp ParseSuccess obtain this2
          where c: "createZodSchema schema ?this1 = Inr this2"
            and l: "load_files files this2 = (this', logged, None)"
          by (auto simp: Let_def split: sum.splits)
        from createZodSchema_schemas [OF c] have "schemas this2 = schemas ?this1" .
        with Cons.IH [OF l] v fc Inr show ?thesis by (simp add: accepted_def)
      next
        case (ParseError issues)
        from sp ParseError have v: "\<not> valid_structure schema" by (simp add: valid_structure_def)
        from Cons.prems fc Inr sp ParseError obtain logged'
          where l: "load_files files this = (this', logged', None)"
          by (auto split: prod.splits)
        with Cons.IH [OF l] v fc Inr show ?thesis by (simp add: accepted_def)
      qed
    qed
  qed
qed

lemma load_files_validators:
  "load_files files this = (this', logged, None) \<Longrightarrow>
   fst ` set (zodSchemas this') =
     fst ` set (zodSchemas this) \<union> name_of ` {d \<in> set (accepted files). declares_properties d}"
proof (induction files arbitrary: this this' logged)
  case Nil
  then show ?case by (simp add: accepted_def)
next
  case (Cons fc files)
  obtain fname content where fc: "fc = (fname, content)" by (cases fc)
  show ?case
  proof (cases content)
    case (Inl e)
    with Cons.prems fc show ?thesis by simp
  next
    case (Inr schema)
    show ?thesis
    proof (cases "safeParse ToolInputSchema (Some schema)")
      case (Inl e)
      with Cons.prems fc Inr show ?thesis by simp
    next
      case sp: (Inr res)
      show ?thesis
      proof (cases res)
        case (ParseSuccess d)
        let ?this1 = "this\<lparr>schemas := AList.update (name_of schema) schema (schemas this)\<rparr>"
        from sp ParseSuccess have v: "valid_structure schema" by (simp add: valid_structure_def)
        from Cons.prems fc Inr sp ParseSuccess obtain this2
          where c: "createZodSchema schema ?this1 = Inr this2"
            and l: "load_files files this2 = (this', logged, None)"
          by (auto simp: Let_def split: sum.splits)
        from createZodSchema_names [OF c]
        have "fst ` set (zodSchemas this2) =
              fst ` set (zodSchemas this) \<union> (if declares_properties schema then {name_of schema} else {})"
          by simp
        with Cons.IH [OF l] v fc Inr show ?thesis by (auto simp: accepted_def)
      next
        case (ParseError issues)
        from sp ParseError have v: "\<not> valid_structure schema" by (simp add: valid_structure_def)
        from Cons.prems fc Inr sp ParseError obtain logged'
          where l: "load_files files this = (this', logged', None)"
          by (auto split: prod.splits)
        with Cons.IH [OF l] v fc Inr show ?thesis by (simp add: accepted_def)
      qed
    qed
  qed
qed


lemma json_files_json_files [simp]: "json_files (json_files files) = json_files files"
  by (simp add: json_files_def)

lemma example_load: "loadSchemas (Inr example_files) constructor =
   (example_manager, [InvalidSchemaStructure ''nameless.json'' [Issue [Key ''name''] ''Required''], LoadedSchemas 2], None)"
  by (simp add: eval_defs)

lemma example_descriptors: "descriptors example_files = [my_tool, descriptor_without_properties]"
  by (simp add: descriptors_def accepted_def json_files_def valid_structure_def eval_defs)

lemma reloadSchemas_eq: "reloadSchemas dir this = loadSchemas dir constructor"
  by (cases this) (simp add: reloadSchemas_def constructor_def)

text \<open>
  Claim C1, amended. After a load that completes on a fresh manager, the index holds
  exactly the names of the descriptors with a valid structure, and the validator cache
  holds exactly the names of those among them that declare \<^verbatim>\<open>properties\<close>: a descriptor
  without \<^verbatim>\<open>properties\<close> is indexed without a validator. So every name of the
  validator cache is a name of the index, and the two name sets are equal when every
  loaded descriptor declares \<^verbatim>\<open>properties\<close>.
\<close>

theorem loadSchemas_name_sets:
  assumes "loadSchemas (Inr files) constructor = (this', logged, None)"
  shows "set (map fst (schemas this')) = name_of ` set (descriptors files) \<and>
         set (map fst (zodSchemas this')) =
           name_of ` {d \<in> set (descriptors files). declares_properties d} \<and>
         set (map fst (zodSchemas this')) \<subseteq> set (map fst (schemas this')) \<and>
         ((\<forall>d \<in> set (descriptors files). declares_properties d) \<longrightarrow>
            set (map fst (zodSchemas this')) = set (map fst (schemas this')))"
proof -
  from assms obtain logged'
    where l: "load_files (json_files files) constructor = (this', logged', None)"
    by (auto simp: loadSchemas_def json_files_def split: prod.splits option.splits)
  from load_files_schemas [OF l]
  have s: "set (map fst (schemas this')) = name_of ` set (descriptors files)"
    by (simp add: fold_update_names constructor_def descriptors_def)
  from load_files_validators [OF l]
  have z: "set (map fst (zodSchemas this')) =
           name_of ` {d \<in> set (descriptors files). declares_properties d}"
    by (simp add: constructor_def descriptors_def)
  from s z show ?thesis by auto
qed

text \<open>Witness for C1: the example directory, where the descriptor without \<^verbatim>\<open>properties\<close>
  is indexed and has no validator.\<close>

theorem loadSchemas_name_sets_witness:
  "loadSchemas (Inr example_files) constructor =
     (example_manager,
      [InvalidSchemaStructure ''nameless.json'' [Issue [Key ''name''] ''Required''],
       LoadedSchemas 2], None) \<and>
   set (map fst (zodSchemas example_manager)) =
     name_of ` {d \<in> set (descriptors example_files). declares_properties d} \<and>
   set (map fst (zodSchemas example_manager)) \<subseteq> set (map fst (schemas example_manager))"
proof -
  from loadSchemas_name_sets [OF example_load]
  have "set (map fst (zodSchemas example_manager)) =
          name_of ` {d \<in> set (descriptors example_files). declares_properties d}"
    and "set (map fst (zodSchemas example_manager)) \<subseteq> set (map fst (schemas example_manager))"
    by blast+
  with example_load show ?thesis by blast
qed

text \<open>Counterexample to C1 as stated: a directory holding one descriptor with no
  \<^verbatim>\<open>properties\<close> loads without error, and the name sets of the two maps differ.\<close>

theorem loadSchemas_name_sets_counterexample:
  "snd (snd (loadSchemas (Inr [(''aio-where.json'', Inr descriptor_without_properties)])
               constructor)) = None \<and>
   set (map fst (schemas (fst (loadSchemas
      (Inr [(''aio-where.json'', Inr descriptor_without_properties)]) constructor)))) \<noteq>
   set (map fst (zodSchemas (fst (loadSchemas
      (Inr [(''aio-where.json'', Inr descriptor_without_properties)]) constructor))))"
  by (simp add: eval_defs)




subsection \<open>Reloading\<close>

lemma createZodSchema_compiled:
  "createZodSchema d this = Inr this' \<Longrightarrow>
   zodSchemas this' =
     (case compiled d of None \<Rightarrow> zodSchemas this
      | Some z \<Rightarrow> AList.update (name_of d) z (zodSchemas this))"
  by (auto simp: createZodSchema_def compiled_def constructor_def update_conv'
      split: sum.splits option.splits if_splits)

lemma createZodSchema_any_manager:
  "createZodSchema d this = Inr this' \<Longrightarrow> \<exists>this2. createZodSchema d this1 = Inr this2"
  by (auto simp: createZodSchema_def split: sum.splits option.splits if_splits)

lemma load_files_validators_fold:
  "load_files files this = (this', logged, None) \<Longrightarrow>
   zodSchemas this' =
     fold (\<lambda>d zs. case compiled d of None \<Rightarrow> zs | Some z \<Rightarrow> AList.update (name_of d) z zs)
       (accepted files) (zodSchemas this)"
proof (induction files arbitrary: this this' logged)
  case Nil
  then show ?case by (simp add: accepted_def)
next
  case (Cons fc files)
  obtain fname content where fc: "fc = (fname, content)" by (cases fc)
  show ?case
  proof (cases content)
    case (Inl e)
    with Cons.prems fc show ?thesis by simp
  next
    case (Inr schema)
    show ?thesis
    proof (cases "safeParse ToolInputSchema (Some schema)")
      case (Inl e)
      with Cons.prems fc Inr show ?thesis by simp
    next
      case sp: (Inr res)
      show ?thesis
      proof (cases res)
        case (ParseSuccess d)
        let ?this1 = "this\<lparr>schemas := AList.update (name_of schema) schema (schemas this)\<rparr>"
        from sp ParseSuccess have v: "valid_structure schema" by (simp add: valid_structure_def)
        from Cons.prems fc Inr sp ParseSuccess obtain this2
          where c: "createZodSchema schema ?this1 = Inr this2"
            and l: "load_files files this2 = (this', logged, None)"
          by (auto simp: Let_def split: sum.splits)
        from createZodSchema_compiled [OF c]
        have "zodSchemas this2 =
                (case compiled schema of None \<Rightarrow> zodSchemas this
                 | Some z \<Rightarrow> AList.update (name_of schema) z (zodSchemas this))"
          by (simp split: option.splits)
        with Cons.IH [OF l] v fc Inr show ?thesis by (simp add: accepted_def)
      next
        case (ParseError issues)
        from sp ParseError have v: "\<not> valid_structure schema" by (simp add: valid_structure_def)
        from Cons.prems fc Inr sp ParseError obtain logged'
          where l: "load_files files this = (this', logged', None)"
          by (auto split: prod.splits)
        with Cons.IH [OF l] v fc Inr show ?thesis by (simp add: accepted_def)
      qed
    qed
  qed
qed

text \<open>A load completes exactly when each file, on its own, is read and parsed and the
  validator of its document, if the structure is valid, can be built.\<close>

lemma load_files_member:
  "load_files files this = (this', logged, None) \<Longrightarrow> (f, c) \<in> set files \<Longrightarrow>
   \<exists>schema. c = Inr schema \<and>
     (valid_structure schema \<longrightarrow> (\<exists>m. createZodSchema schema constructor = Inr m))"
proof (induction files arbitrary: this this' logged)
  case Nil
  then show ?case by simp
next
  case (Cons fc files)
  obtain fname content where fc: "fc = (fname, content)" by (cases fc)
  show ?case
  proof (cases content)
    case (Inl e)
    with Cons.prems fc show ?thesis by simp
  next
    case (Inr schema)
    show ?thesis
    proof (cases "safeParse ToolInputSchema (Some schema)")
      case (Inl e)
      with Cons.prems fc Inr show ?thesis by simp
    next
      case sp: (Inr res)
      show ?thesis
      proof (cases res)
        case (ParseSuccess d)
        let ?this1 = "this\<lparr>schemas := AList.update (name_of schema) schema (schemas this)\<rparr>"
        from Cons.prems(1) fc Inr sp ParseSuccess obtain this2
          where c: "createZodSchema schema ?this1 = Inr this2"
            and l: "load_files files this2 = (this', logged, None)"
          by (auto simp: Let_def split: sum.splits)
        from createZodSchema_any_manager [OF c]
        have h: "\<exists>m. createZodSchema schema constructor = Inr m" .
        from Cons.prems(2) fc consider "(f, c) = (fname, content)" | "(f, c) \<in> set files" by auto
        then show ?thesis
        proof cases
          case 1
          with Inr h show ?thesis by simp
        next
          case 2
          from Cons.IH [OF l 2] show ?thesis .
        qed
      next
        case (ParseError issues)
        from sp ParseError have nv: "\<not> valid_structure schema" by (simp add: valid_structure_def)
        from Cons.prems(1) fc Inr sp ParseError obtain logged'
          where l: "load_files files this = (this', logged', None)"
          by (auto split: prod.splits)
        from Cons.prems(2) fc consider "(f, c) = (fname, content)" | "(f, c) \<in> set files" by auto
        then show ?thesis
        proof cases
          case 1
          with Inr nv show ?thesis by simp
        next
          case 2
          from Cons.IH [OF l 2] show ?thesis .
        qed
      qed
    qed
  qed
qed

lemma load_files_all:
  assumes "\<forall>fc \<in> set files. \<exists>schema. snd fc = Inr schema \<and>
     (valid_structure schema \<longrightarrow> (\<exists>m. createZodSchema schema constructor = Inr m))"
  shows "\<exists>this' logged. load_files files this = (this', logged, None)"
  using assms
proof (induction files arbitrary: this)
  case Nil
  then show ?case by simp
next
  case (Cons fc files)
  from Cons.prems obtain fname schema where fc: "fc = (fname, Inr schema)"
    and ok: "valid_structure schema \<longrightarrow> (\<exists>m. createZodSchema schema constructor = Inr m)"
    by (cases fc) auto
  from Cons.prems have rest: "\<forall>fc \<in> set files. \<exists>schema. snd fc = Inr schema \<and>
     (valid_structure schema \<longrightarrow> (\<exists>m. createZodSchema schema constructor = Inr m))" by simp
  from safeParse_ToolInputSchema obtain res
    where sp: "safeParse ToolInputSchema (Some schema) = Inr res" by blast
  show ?case
  proof (cases res)
    case (ParseSuccess v)
    let ?this1 = "this\<lparr>schemas := AList.update (name_of schema) schema (schemas this)\<rparr>"
    from sp ParseSuccess have "valid_structure schema" by (simp add: valid_structure_def)
    with ok obtain m where "createZodSchema schema constructor = Inr m" by blast
    from createZodSchema_any_manager [OF this] obtain this2
      where c: "createZodSchema schema ?this1 = Inr this2" by blast
    from Cons.IH [OF rest, of this2] fc sp ParseSuccess c show ?thesis by simp
  next
    case (ParseError issues)
    from Cons.IH [OF rest, of this] obtain this' logged
      where "load_files files this = (this', logged, None)" by blast
    with fc sp ParseError show ?thesis by simp
  qed
qed

text \<open>The documents a load accepts depend on the files, not on the order of the listing.\<close>

lemma parsed_mset:
  "mset (parsed files) =
   (\<Sum>fc \<in># mset files. mset (case snd fc of Inl e \<Rightarrow> [] | Inr d \<Rightarrow> [(fst fc, d)]))"
  by (induction files rule: parsed.induct) simp_all

lemma descriptors_mset:
  assumes "mset files' = mset files"
  shows "mset (descriptors files') = mset (descriptors files)"
proof -
  from assms have "mset (json_files files') = mset (json_files files)"
    by (simp add: json_files_def)
  then have "mset (parsed (json_files files')) = mset (parsed (json_files files))"
    by (simp only: parsed_mset)
  then have "mset (map snd (parsed (json_files files'))) = mset (map snd (parsed (json_files files)))"
    by (metis mset_map)
  then show ?thesis by (simp add: descriptors_def accepted_def)
qed

text \<open>With distinct names, what a name is mapped to does not depend on the order in
  which the entries were set.\<close>

lemma fold_set_other:
  "n \<notin> f ` set ds \<Longrightarrow>
   map_of (fold (\<lambda>d al. case g d of None \<Rightarrow> al | Some z \<Rightarrow> AList.update (f d) z al) ds al) n
     = map_of al n"
  by (induction ds arbitrary: al) (auto simp: update_conv' split: option.splits)

lemma fold_set_member:
  "distinct (map f ds) \<Longrightarrow> d \<in> set ds \<Longrightarrow>
   map_of (fold (\<lambda>d al. case g d of None \<Rightarrow> al | Some z \<Rightarrow> AList.update (f d) z al) ds al) (f d)
     = (case g d of None \<Rightarrow> map_of al (f d) | Some z \<Rightarrow> Some z)"
proof (induction ds arbitrary: al)
  case Nil
  then show ?case by simp
next
  case (Cons e ds)
  let ?step = "\<lambda>d al. case g d of None \<Rightarrow> al | Some z \<Rightarrow> AList.update (f d) z al"
  from Cons.prems(1) have dist: "distinct (map f ds)" and fresh: "f e \<notin> f ` set ds" by auto
  show ?case
  proof (cases "d = e")
    case True
    from fold_set_other [OF fresh, of g "?step e al"] True show ?thesis
      by (simp add: update_conv' split: option.splits)
  next
    case False
    with Cons.prems(2) have m: "d \<in> set ds" by simp
    with fresh have "f e \<noteq> f d" by auto
    then have "map_of (?step e al) (f d) = map_of al (f d)"
      by (simp add: update_conv' split: option.splits)
    with Cons.IH [OF dist m, of "?step e al"] show ?thesis by (simp split: option.splits)
  qed
qed

lemma fold_set_order:
  assumes "mset ds' = mset ds" and "distinct (map f ds)"
  shows "map_of (fold (\<lambda>d al. case g d of None \<Rightarrow> al | Some z \<Rightarrow> AList.update (f d) z al) ds' [])
       = map_of (fold (\<lambda>d al. case g d of None \<Rightarrow> al | Some z \<Rightarrow> AList.update (f d) z al) ds [])"
proof
  fix n
  let ?step = "\<lambda>d al. case g d of None \<Rightarrow> al | Some z \<Rightarrow> AList.update (f d) z al"
  from assms(1) have s: "set ds' = set ds" by (rule mset_eq_setD)
  from assms(1) have "mset (map f ds') = mset (map f ds)" by simp
  with assms(2) have d': "distinct (map f ds')" by (metis mset_eq_imp_distinct_iff)
  show "map_of (fold ?step ds' []) n = map_of (fold ?step ds []) n"
  proof (cases "n \<in> f ` set ds")
    case True
    then obtain d where d: "d \<in> set ds" and n: "n = f d" by auto
    from fold_set_member [OF assms(2) d, of g "[]"] fold_set_member [OF d', of d g "[]"] d s n
    show ?thesis by simp
  next
    case False
    with fold_set_other [of n f ds g "[]"] fold_set_other [of n f ds' g "[]"] s
    show ?thesis by simp
  qed
qed

lemma load_files_order:
  assumes "load_files files constructor = (this, logged, None)"
    and "load_files files' constructor = (this', logged', None)"
    and "mset (accepted files') = mset (accepted files)"
    and "distinct (map name_of (accepted files))"
  shows "map_of (schemas this') = map_of (schemas this)"
    and "map_of (zodSchemas this') = map_of (zodSchemas this)"
proof -
  from fold_set_order [OF assms(3,4), of Some]
  have "map_of (fold (\<lambda>d. AList.update (name_of d) d) (accepted files') []) =
        map_of (fold (\<lambda>d. AList.update (name_of d) d) (accepted files) [])"
    by simp
  with load_files_schemas [OF assms(1)] load_files_schemas [OF assms(2)]
  show "map_of (schemas this') = map_of (schemas this)"
    by (simp add: constructor_def)
  from load_files_validators_fold [OF assms(1)] load_files_validators_fold [OF assms(2)]
    fold_set_order [OF assms(3,4), of compiled]
  show "map_of (zodSchemas this') = map_of (zodSchemas this)"
    by (simp add: constructor_def)
qed

text \<open>
  Claim C7. A reload discards the manager's state, so a reload over the same listing
  leaves the manager, the log and the outcome as the load from the fresh manager left
  them. The listing may also come in another order: when the load of the documents
  completed and no two descriptors share a name, a reload over the same files in any
  order completes, indexes the same names, caches validators under the same names, and
  answers every lookup and every validation as before.
\<close>

theorem reloadSchemas_unchanged:
  "(loadSchemas dir constructor = (this, logged, r) \<longrightarrow>
      reloadSchemas dir this = (this, logged, r)) \<and>
   (loadSchemas (Inr files) constructor = (this, logged, None) \<and>
    mset files' = mset files \<and> distinct (map name_of (descriptors files)) \<longrightarrow>
      (\<exists>this' logged'.
         reloadSchemas (Inr files') this = (this', logged', None) \<and>
         set (map fst (schemas this')) = set (map fst (schemas this)) \<and>
         set (map fst (zodSchemas this')) = set (map fst (zodSchemas this)) \<and>
         (\<forall>name. getSchema this' name = getSchema this name) \<and>
         (\<forall>name input. validateInput this' name input = validateInput this name input)))"
proof (intro conjI impI)
  assume "loadSchemas dir constructor = (this, logged, r)"
  then show "reloadSchemas dir this = (this, logged, r)" by (simp add: reloadSchemas_eq)
next
  assume a: "loadSchemas (Inr files) constructor = (this, logged, None) \<and>
    mset files' = mset files \<and> distinct (map name_of (descriptors files))"
  then obtain logged0
    where l: "load_files (json_files files) constructor = (this, logged0, None)"
    by (auto simp: loadSchemas_def json_files_def split: prod.splits option.splits)
  from a have ms: "mset files' = mset files"
    and dist: "distinct (map name_of (accepted (json_files files)))"
    by (simp_all add: descriptors_def)
  from ms have "set (json_files files') = set (json_files files)"
    by (metis json_files_def mset_eq_setD mset_filter)
  with load_files_member [OF l]
  have "\<forall>fc \<in> set (json_files files'). \<exists>schema. snd fc = Inr schema \<and>
     (valid_structure schema \<longrightarrow> (\<exists>m. createZodSchema schema constructor = Inr m))"
    by auto
  from load_files_all [OF this, of constructor] obtain this' logged1
    where l': "load_files (json_files files') constructor = (this', logged1, None)" by blast
  from descriptors_mset [OF ms]
  have "mset (accepted (json_files files')) = mset (accepted (json_files files))"
    by (simp add: descriptors_def)
  from load_files_order [OF l l' this dist]
  have s: "map_of (schemas this') = map_of (schemas this)"
    and z: "map_of (zodSchemas this') = map_of (zodSchemas this)" .
  from l' have "reloadSchemas (Inr files') this =
      (this', logged1 @ [LoadedSchemas (length (schemas this'))], None)"
    by (simp add: reloadSchemas_eq loadSchemas_def json_files_def)
  moreover from s have "set (map fst (schemas this')) = set (map fst (schemas this))"
    by (metis dom_map_of_conv_image_fst set_map)
  moreover from z have "set (map fst (zodSchemas this')) = set (map fst (zodSchemas this))"
    by (metis dom_map_of_conv_image_fst set_map)
  moreover from s have "\<forall>name. getSchema this' name = getSchema this name"
    by (simp add: getSchema_def)
  moreover from z have "\<forall>name input. validateInput this' name input = validateInput this name input"
    by (simp add: validateInput_def)
  ultimately show "\<exists>this' logged'.
         reloadSchemas (Inr files') this = (this', logged', None) \<and>
         set (map fst (schemas this')) = set (map fst (schemas this)) \<and>
         set (map fst (zodSchemas this')) = set (map fst (zodSchemas this)) \<and>
         (\<forall>name. getSchema this' name = getSchema this name) \<and>
         (\<forall>name input. validateInput this' name input = validateInput this name input)"
    by blast
qed

text \<open>Witness for C7: the example directory is loaded, then reloaded from the reversed
  listing. The two descriptors are indexed in the other order, and validation under the
  example tool's name answers as before.\<close>

theorem reloadSchemas_unchanged_witness:
  "loadSchemas (Inr example_files) constructor =
     (example_manager,
      [InvalidSchemaStructure ''nameless.json'' [Issue [Key ''name''] ''Required''],
       LoadedSchemas 2], None) \<and>
   mset (rev example_files) = mset example_files \<and>
   distinct (map name_of (descriptors example_files)) \<and>
   reloadSchemas (Inr (rev example_files)) example_manager =
     (\<lparr>schemas = [(''aio-where'', descriptor_without_properties), (''my-tool'', my_tool)],
       zodSchemas = [(''my-tool'', ZObject [(''param1'', ZString), (''param2'', ZOptional ZBoolean)] strip)]\<rparr>,
      [InvalidSchemaStructure ''nameless.json'' [Issue [Key ''name''] ''Required''],
       LoadedSchemas 2], None) \<and>
   validateInput
     \<lparr>schemas = [(''aio-where'', descriptor_without_properties), (''my-tool'', my_tool)],
       zodSchemas = [(''my-tool'', ZObject [(''param1'', ZString), (''param2'', ZOptional ZBoolean)] strip)]\<rparr>
     ''my-tool'' (Some (JObj [(''param2'', JNum 1 ''1'')])) =
   validateInput example_manager ''my-tool'' (Some (JObj [(''param2'', JNum 1 ''1'')]))"
proof -
  let ?reloaded = "\<lparr>schemas = [(''aio-where'', descriptor_without_properties), (''my-tool'', my_tool)],
       zodSchemas = [(''my-tool'', ZObject [(''param1'', ZString), (''param2'', ZOptional ZBoolean)] strip)]\<rparr>"
  have m: "mset (rev example_files) = mset example_files" by simp
  have d: "distinct (map name_of (descriptors example_files))"
    by (simp add: example_descriptors name_of_def my_tool_def descriptor_without_properties_def)
  have r: "reloadSchemas (Inr (rev example_files)) example_manager =
     (?reloaded,
      [InvalidSchemaStructure ''nameless.json'' [Issue [Key ''name''] ''Required''],
       LoadedSchemas 2], None)"
    by (simp add: reloadSchemas_eq eval_defs)
  from reloadSchemas_unchanged [of "Inr example_files" example_manager _ None example_files
      "rev example_files"] example_load m d
  obtain this' logged'
    where "reloadSchemas (Inr (rev example_files)) example_manager = (this', logged', None)"
      and "\<forall>name input. validateInput this' name input = validateInput example_manager name input"
    by blast
  with r have "validateInput ?reloaded ''my-tool'' (Some (JObj [(''param2'', JNum 1 ''1'')])) =
   validateInput example_manager ''my-tool'' (Some (JObj [(''param2'', JNum 1 ''1'')]))"
    by simp
  with example_load m d r show ?thesis by blast
qed

section \<open>Validating arguments\<close>




text \<open>
  The rule compiled for a property schema whose \<^verbatim>\<open>enum\<close> is an array, whatever its
  \<^verbatim>\<open>type\<close>: it accepts the property exactly when it holds a string that is listed, or
  when the property is not required and is not \<^verbatim>\<open>in\<close> the object. For a list of
  strings this is the narrowing to the listed values.
\<close>

lemma enum_of_strings:
  assumes "field_of propSchema ''enum'' = Some (JArr vs)"
    and "required_includes required key = Inr req"
    and "key \<noteq> ''__proto__''"
  shows "\<exists>t. compile_properties required [(key, propSchema)] [] = Inr [(key, t)] \<and>
           (\<forall>obj. accepts t (get_property obj key) \<longleftrightarrow>
              (\<exists>s. get_property obj key = Some (JStr s) \<and> JStr s \<in> set vs) \<or>
              (\<not> req \<and> \<not> has_property obj key))"
proof -
  from assms(1) have nn: "propSchema \<noteq> JNull" by auto
  then have f: "field (Some propSchema) ''type'' = Inr (field_of propSchema ''type'')"
    by (cases propSchema) simp_all
  let ?t = "if req then ZEnum (JArr vs) else ZOptional (ZEnum (JArr vs))"
  from f assms have c: "compile_properties required [(key, propSchema)] [] = Inr [(key, ?t)]"
    by (simp add: assign_def)
  have "\<forall>obj. accepts ?t (get_property obj key) \<longleftrightarrow>
              (\<exists>s. get_property obj key = Some (JStr s) \<and> JStr s \<in> set vs) \<or>
              (\<not> req \<and> \<not> has_property obj key)"
    using get_property_None [of _ key]
    by (auto simp: enum_accepts optional_enum_accepts)
  with c show ?thesis by blast
qed

text \<open>An \<^verbatim>\<open>action\<close> enum of two strings.\<close>

lemma enum_of_strings_example:
  "field_of (JObj [(''type'', JStr ''string''), (''enum'', JArr [JStr ''list-orgs'', JStr ''select-org''])])
     ''enum'' = Some (JArr [JStr ''list-orgs'', JStr ''select-org'']) \<and>
   required_includes (Some (JArr [JStr ''action''])) ''action'' = Inr True \<and>
   compile_properties (Some (JArr [JStr ''action'']))
     [(''action'', JObj [(''type'', JStr ''string''),
                         (''enum'', JArr [JStr ''list-orgs'', JStr ''select-org''])])] [] =
     Inr [(''action'', ZEnum (JArr [JStr ''list-orgs'', JStr ''select-org'']))] \<and>
   accepts (ZEnum (JArr [JStr ''list-orgs'', JStr ''select-org'']))
     (get_property [(''action'', JStr ''select-org'')] ''action'') \<and>
   \<not> accepts (ZEnum (JArr [JStr ''list-orgs'', JStr ''select-org'']))
     (get_property [(''action'', JStr ''delete-org'')] ''action'')"
proof -
  let ?vs = "[JStr ''list-orgs'', JStr ''select-org'']"
  let ?p = "JObj [(''type'', JStr ''string''), (''enum'', JArr ?vs)]"
  have h1: "field_of ?p ''enum'' = Some (JArr ?vs)" by simp
  have h2: "required_includes (Some (JArr [JStr ''action''])) ''action'' = Inr True"
    by (simp add: required_includes_def)
  have h3: "''action'' \<noteq> ''__proto__''" by simp
  have c: "compile_properties (Some (JArr [JStr ''action''])) [(''action'', ?p)] [] =
     Inr [(''action'', ZEnum (JArr ?vs))]"
    by (simp add: required_includes_def assign_def)
  from enum_of_strings [OF h1 h2 h3] c
  have e: "\<forall>obj. accepts (ZEnum (JArr ?vs)) (get_property obj ''action'') \<longleftrightarrow>
              (\<exists>s. get_property obj ''action'' = Some (JStr s) \<and> JStr s \<in> set ?vs) \<or>
              (\<not> True \<and> \<not> has_property obj ''action'')"
    by auto
  have g1: "get_property [(''action'', JStr ''select-org'')] ''action'' = Some (JStr ''select-org'')"
    and g2: "get_property [(''action'', JStr ''delete-org'')] ''action'' = Some (JStr ''delete-org'')"
    by (simp_all add: get_property_def)
  from e [THEN spec, of "[(''action'', JStr ''select-org'')]"] g1
  have a1: "accepts (ZEnum (JArr ?vs)) (get_property [(''action'', JStr ''select-org'')] ''action'')"
    by simp
  from e [THEN spec, of "[(''action'', JStr ''delete-org'')]"] g2
  have a2: "\<not> accepts (ZEnum (JArr ?vs)) (get_property [(''action'', JStr ''delete-org'')] ''action'')"
    by simp
  from h1 h2 c a1 a2 show ?thesis by blast
qed

text \<open>
  Claim C8, at the input where the code departs from it. The property \<^verbatim>\<open>level\<close> is
  declared as \<^verbatim>\<open>{type: 'integer', enum: [1, 2, 3]}\<close>. The descriptor loads, and the
  validator compiled for it rejects the listed value \<^verbatim>\<open>1\<close>; indeed it rejects the
  property whatever value it holds, so that no listed value is accepted.
\<close>

theorem numeric_enum_rejects_listed:
  "loadSchemas (Inr [(''set-level.json'', Inr level_tool)]) constructor =
     (level_manager, [LoadedSchemas 1], None) \<and>
   validateInput level_manager ''set-level'' (Some (JObj [(''level'', JNum 1 ''1'')])) =
     Inr (Invalid ''Validation failed: Expected 1 | 2 | 3, received number'') \<and>
   (\<forall>v. \<exists>reason. validateInput level_manager ''set-level'' (Some (JObj [(''level'', v)])) =
     Inr (Invalid reason))"
proof -
  have l: "loadSchemas (Inr [(''set-level.json'', Inr level_tool)]) constructor =
     (level_manager, [LoadedSchemas 1], None)"
    by (simp add: eval_defs level_tool_def level_manager_def)
  have one: "validateInput level_manager ''set-level'' (Some (JObj [(''level'', JNum 1 ''1'')])) =
     Inr (Invalid ''Validation failed: Expected 1 | 2 | 3, received number'')"
    by (simp add: level_manager_def validateInput_def safeParse_def get_property_def
        Object_prototype_methods_def enum_parse_def invalid_type_def joinValues_def Array_join_def)
  have none: "\<exists>reason. validateInput level_manager ''set-level'' (Some (JObj [(''level'', v)])) =
     Inr (Invalid reason)" for v
    by (cases v)
       (simp_all add: level_manager_def validateInput_def safeParse_def get_property_def
          Object_prototype_methods_def enum_parse_def)
  from l one none show ?thesis by blast
qed

section \<open>Defaults\<close>

lemma apply_entries_keys:
  "apply_entries entries result = Inr r \<Longrightarrow>
   fst ` set r \<subseteq> fst ` set result \<union> fst ` set entries"
proof (induction entries arbitrary: result)
  case Nil
  then show ?case by simp
next
  case (Cons kp entries)
  obtain key propertySchema where kp: "kp = (key, propertySchema)" by (cases kp)
  from Cons.prems kp consider "apply_entries entries result = Inr r"
    | v where "apply_entries entries (assign result key v) = Inr r"
    by (auto split: if_splits sum.splits bool.splits option.splits)
  then show ?case
  proof cases
    case 1
    from Cons.IH [OF 1] kp show ?thesis by auto
  next
    case 2
    from Cons.IH [OF 2] assign_keys [of result key v] kp show ?thesis by auto
  qed
qed

lemma apply_entries_kept:
  "apply_entries entries result = Inr r \<Longrightarrow> has_property result k \<Longrightarrow>
   map_of r k = map_of result k"
proof (induction entries arbitrary: result)
  case Nil
  then show ?case by simp
next
  case (Cons kp entries)
  obtain key propertySchema where kp: "kp = (key, propertySchema)" by (cases kp)
  from Cons.prems(1) kp consider "apply_entries entries result = Inr r"
    | v where "\<not> has_property result key" "apply_entries entries (assign result key v) = Inr r"
    by (auto split: if_splits sum.splits bool.splits option.splits)
  then show ?case
  proof cases
    case 1
    from Cons.IH [OF 1 Cons.prems(2)] show ?thesis .
  next
    case 2
    from 2(1) Cons.prems(2) have ne: "key \<noteq> k" by auto
    from 2(1) have np: "key \<noteq> ''__proto__''" by (auto simp: has_property_def inherited_def)
    from Cons.prems(2) have "has_property (assign result key v) k"
      by (simp add: has_property_assign)
    from Cons.IH [OF 2(2) this] ne np show ?thesis by (simp add: map_of_assign)
  qed
qed

lemma apply_entries_default:
  assumes "apply_entries entries result = Inr r" and "distinct (map fst entries)"
    and "(k, ps) \<in> set entries" and "\<not> has_property result k"
  shows "map_of r k = declared_default ps"
  using assms
proof (induction entries arbitrary: result)
  case Nil
  then show ?case by simp
next
  case (Cons kp entries)
  obtain key propertySchema where kp: "kp = (key, propertySchema)" by (cases kp)
  from Cons.prems(2) kp have d: "distinct (map fst entries)" and nk: "key \<notin> fst ` set entries"
    by auto
  show ?case
  proof (cases "(k, ps) = kp")
    case True
    with kp have k: "key = k" and p: "propertySchema = ps" by simp_all
    from Cons.prems(4) have own: "k \<notin> fst ` set result" and np: "k \<noteq> ''__proto__''"
      by (auto simp: has_property_def inherited_def)
    from Cons.prems(1,4) kp k p consider
        "declared_default ps = None" "apply_entries entries result = Inr r"
      | v where "declared_default ps = Some v" "apply_entries entries (assign result k v) = Inr r"
      by (cases ps)
         (auto simp: declared_default_def has_property_default
            split: if_splits sum.splits bool.splits option.splits)
    then show ?thesis
    proof cases
      case 1
      from apply_entries_keys [OF 1(2)] own nk k have "k \<notin> fst ` set r" by auto
      then have "map_of r k = None" by (simp add: map_of_eq_None_iff)
      with 1(1) show ?thesis by simp
    next
      case 2
      have "has_property (assign result k v) k" by (simp add: has_property_assign)
      from apply_entries_kept [OF 2(2) this] np 2(1) show ?thesis by (simp add: map_of_assign)
    qed
  next
    case False
    with Cons.prems(3) have m: "(k, ps) \<in> set entries" by auto
    with nk kp have ne: "key \<noteq> k" by force
    from Cons.prems(1) kp consider "apply_entries entries result = Inr r"
      | v where "apply_entries entries (assign result key v) = Inr r"
      by (auto split: if_splits sum.splits bool.splits option.splits)
    then show ?thesis
    proof cases
      case 1
      from Cons.IH [OF 1 d m Cons.prems(4)] show ?thesis .
    next
      case 2
      from Cons.prems(4) ne have "\<not> has_property (assign result key v) k"
        by (simp add: has_property_assign)
      from Cons.IH [OF 2 d m this] show ?thesis .
    qed
  qed
qed

subsection \<open>Validated data\<close>

lemma zparse_defined: "zparse t p (Some x) = Inr ([], v) \<Longrightarrow> v \<noteq> None"
  by (induction t)
     (auto simp: enum_parse_def split: option.splits jsval.splits if_splits sum.splits prod.splits)

lemma zparse_shape_sets:
  "zparse_shape shape p obj = Inr (issues, out) \<Longrightarrow> (k, t) \<in> set shape \<Longrightarrow> k \<noteq> ''__proto__'' \<Longrightarrow>
   zparse t (p @ [Key k]) (get_property obj k) = Inr (is', Some v) \<Longrightarrow> k \<in> fst ` set out"
proof (induction shape arbitrary: issues out)
  case Nil
  then show ?case by simp
next
  case (Cons kt shape)
  obtain k' t' where kt: "kt = (k', t')" by (cases kt)
  from Cons.prems(1) kt obtain is1 o1 is2 outs
    where h: "zparse t' (p @ [Key k']) (get_property obj k') = Inr (is1, o1)"
      and r: "zparse_shape shape p obj = Inr (is2, outs)"
      and o: "out = (case o1 of None \<Rightarrow> outs
                     | Some v \<Rightarrow> if k' = ''__proto__'' then outs else (k', v) # outs)"
    by (auto split: sum.splits prod.splits)
  show ?case
  proof (cases "(k, t) = (k', t')")
    case True
    with h Cons.prems(3,4) o show ?thesis by auto
  next
    case False
    with Cons.prems(2) kt have "(k, t) \<in> set shape" by auto
    from Cons.IH [OF r this Cons.prems(3,4)] o show ?thesis by (auto split: option.splits)
  qed
qed

lemma compile_properties_declared:
  "compile_properties required entries acc = Inr props \<Longrightarrow>
   fst ` set acc \<union> (fst ` set entries - {''__proto__''}) \<subseteq> fst ` set props"
proof (induction entries arbitrary: acc)
  case Nil
  then show ?case by simp
next
  case (Cons kp entries)
  obtain key propSchema where kp: "kp = (key, propSchema)" by (cases kp)
  from Cons.prems kp obtain zodType
    where c: "compile_properties required entries (assign acc key zodType) = Inr props"
    by (auto simp: Let_def split: sum.splits)
  have "fst ` set acc \<subseteq> fst ` set (assign acc key zodType)"
    by (auto simp: assign_def dom_update)
  moreover have "key \<noteq> ''__proto__'' \<Longrightarrow> key \<in> fst ` set (assign acc key zodType)"
    by (simp add: assign_keys_eq)
  ultimately show ?case using Cons.IH [OF c] kp by auto
qed

lemma createZodSchema_shape:
  assumes "createZodSchema d this0 = Inr this" and "declares_properties d"
  obtains shape where "map_of (zodSchemas this) (name_of d) = Some (ZObject shape strip)"
    "fst ` set (property_schemas d) - {''__proto__''} \<subseteq> fst ` set shape"
proof -
  from declares_propertiesE [OF assms(2)] obtain inp props
    where inp: "field_of d ''inputSchema'' = Some inp"
    and ti: "truthy (Some inp)" and props: "field_of inp ''properties'' = Some props"
    and tp: "truthy (Some props)" by blast
  from inp have nn: "field (Some d) ''inputSchema'' = Inr (Some inp)"
    by (cases d) simp_all
  from assms(1) nn inp ti props tp obtain shape
    where c: "compile_properties (field_of inp ''required'') (Object_entries props) [] = Inr shape"
      and t: "this = this0\<lparr>zodSchemas := AList.update (name_of d) (ZObject shape strip) (zodSchemas this0)\<rparr>"
    by (auto simp: createZodSchema_def split: sum.splits)
  from compile_properties_declared [OF c] inp props
  have "fst ` set (property_schemas d) - {''__proto__''} \<subseteq> fst ` set shape"
    by (simp add: property_schemas_def)
  moreover from t have "map_of (zodSchemas this) (name_of d) = Some (ZObject shape strip)"
    by (simp add: update_conv')
  ultimately show thesis using that by blast
qed

text \<open>On the data of a successful validation, a declared property other than
  \<^verbatim>\<open>__proto__\<close> is \<^verbatim>\<open>in\<close> the object only when it is its own: an inherited method
  under a declared name is a defined value, which the validator either rejects or copies
  into the data.\<close>

lemma validated_own:
  assumes "createZodSchema d this0 = Inr this" and "declares_properties d"
    and "validateInput this (name_of d) input = Inr (Valid (Some (JObj args)))"
    and "k \<in> fst ` set (property_schemas d)" and "k \<noteq> ''__proto__''"
  shows "has_property args k \<longleftrightarrow> k \<in> fst ` set args"
proof
  assume hp: "has_property args k"
  from createZodSchema_shape [OF assms(1,2)] obtain shape
    where z: "map_of (zodSchemas this) (name_of d) = Some (ZObject shape strip)"
      and ks: "fst ` set (property_schemas d) - {''__proto__''} \<subseteq> fst ` set shape"
    by blast
  from ks assms(4,5) obtain t where t: "(k, t) \<in> set shape" by auto
  from assms(3) z obtain obj where i: "input = Some (JObj obj)"
    and zs: "zparse_shape shape [] obj = Inr ([], args)"
    by (auto simp: validateInput_def safeParse_def
        split: sum.splits prod.splits if_splits option.splits jsval.splits)
  show "k \<in> fst ` set args"
  proof (cases "k \<in> fst ` set args")
    case True
    then show ?thesis .
  next
    case False
    with hp have "inherited k" by (simp add: has_property_def)
    then have "has_property obj k" by (simp add: has_property_def)
    then obtain x where x: "get_property obj k = Some x"
      using get_property_None [of obj k] by (cases "get_property obj k") auto
    from zparse_shape_ok [OF zs t] x obtain v
      where v: "zparse t ([] @ [Key k]) (Some x) = Inr ([], v)" by auto
    from zparse_defined [OF v] obtain y where "v = Some y" by (cases v) auto
    with v x have "zparse t ([] @ [Key k]) (get_property obj k) = Inr ([], Some y)" by simp
    from zparse_shape_sets [OF zs t assms(5) this] show ?thesis .
  qed
next
  assume "k \<in> fst ` set args"
  then show "has_property args k" by (simp add: has_property_def)
qed

text \<open>
  What \<^const>\<open>applyDefaults\<close> makes of validated data, for a descriptor that is loaded and
  declares \<^verbatim>\<open>properties\<close>: every property of the data keeps its value, whatever the
  value is, and every declared property other than \<^verbatim>\<open>__proto__\<close> that the data does
  not have holds its declared default if it declares one, and stays absent if not.
\<close>

theorem applyDefaults_validated:
  assumes "createZodSchema d (this0\<lparr>schemas := AList.update (name_of d) d (schemas this0)\<rparr>) = Inr this"
    and "declares_properties d"
    and "distinct (map fst (property_schemas d))"
    and "validateInput this (name_of d) input = Inr (Valid (Some (JObj args)))"
    and "applyDefaults this (Some (JObj args)) (name_of d) = Inr a"
  shows "\<exists>res. a = Some (JObj res) \<and>
           (\<forall>k \<in> fst ` set args. map_of res k = map_of args k) \<and>
           (\<forall>kp \<in> set (property_schemas d).
              fst kp \<notin> fst ` set args \<and> fst kp \<noteq> ''__proto__'' \<longrightarrow>
              map_of res (fst kp) = declared_default (snd kp))"
proof -
  from createZodSchema_schemas [OF assms(1)]
  have g: "getSchema this (name_of d) = Some d"
    by (simp add: getSchema_def update_conv')
  from declares_propertiesE [OF assms(2)] obtain inp props
    where inp: "field_of d ''inputSchema'' = Some inp"
      and ti: "truthy (Some inp)" and props: "field_of inp ''properties'' = Some props"
      and tp: "truthy (Some props)" by blast
  from inp have f1: "field (Some d) ''inputSchema'' = Inr (Some inp)" by (cases d) simp_all
  from inp have td: "truthy (Some d)" by (cases d) simp_all
  from ti props have f2: "field (Some inp) ''properties'' = Inr (Some props)"
    by (cases inp) simp_all
  from inp props have ps: "property_schemas d = Object_entries props"
    by (simp add: property_schemas_def)
  from assms(5) g f1 f2 tp td obtain res
    where ae: "apply_entries (Object_entries props) args = Inr res" and r: "a = Some (JObj res)"
    by (auto simp: applyDefaults_def split: sum.splits)
  have kept: "\<forall>k \<in> fst ` set args. map_of res k = map_of args k"
  proof
    fix k assume "k \<in> fst ` set args"
    then have "has_property args k" by (simp add: has_property_def)
    from apply_entries_kept [OF ae this] show "map_of res k = map_of args k" .
  qed
  have filled: "\<forall>kp \<in> set (property_schemas d).
              fst kp \<notin> fst ` set args \<and> fst kp \<noteq> ''__proto__'' \<longrightarrow>
              map_of res (fst kp) = declared_default (snd kp)"
  proof (intro ballI impI)
    fix kp assume kp: "kp \<in> set (property_schemas d)"
      and ab: "fst kp \<notin> fst ` set args \<and> fst kp \<noteq> ''__proto__''"
    from kp have "fst kp \<in> fst ` set (property_schemas d)" by simp
    from validated_own [OF assms(1,2,4) this] ab have nh: "\<not> has_property args (fst kp)" by simp
    from kp ps have "(fst kp, snd kp) \<in> set (Object_entries props)" by simp
    from apply_entries_default [OF ae _ this nh] assms(3) ps
    show "map_of res (fst kp) = declared_default (snd kp)" by simp
  qed
  from r kept filled show ?thesis by blast
qed

text \<open>The example tool: the empty string under \<^verbatim>\<open>param1\<close> is kept, and the absent
  flag \<^verbatim>\<open>param2\<close> is set to its default.\<close>

theorem applyDefaults_validated_witness:
  "createZodSchema my_tool
     (constructor\<lparr>schemas := AList.update (name_of my_tool) my_tool (schemas constructor)\<rparr>)
     = Inr example_tool_manager \<and>
   declares_properties my_tool \<and>
   distinct (map fst (property_schemas my_tool)) \<and>
   validateInput example_tool_manager ''my-tool'' (Some (JObj [(''param1'', JStr [])])) =
     Inr (Valid (Some (JObj [(''param1'', JStr [])]))) \<and>
   applyDefaults example_tool_manager (Some (JObj [(''param1'', JStr [])])) ''my-tool'' =
     Inr (Some (JObj [(''param1'', JStr []), (''param2'', JBool False)])) \<and>
   map_of [(''param1'', JStr []), (''param2'', JBool False)] ''param2'' =
     declared_default (JObj [(''type'', JStr ''boolean''),
                             (''description'', JStr ''Description of parameter 2''),
                             (''default'', JBool False)])"
proof -
  have h1: "createZodSchema my_tool
     (constructor\<lparr>schemas := AList.update (name_of my_tool) my_tool (schemas constructor)\<rparr>)
     = Inr example_tool_manager"
    by (simp add: eval_defs example_tool_manager_def)
  have h2: "declares_properties my_tool" by (simp add: declares_properties_def my_tool_def)
  have ps: "property_schemas my_tool =
      [(''param1'', JObj [(''type'', JStr ''string''),
                          (''description'', JStr ''Description of parameter 1'')]),
       (''param2'', JObj [(''type'', JStr ''boolean''),
                          (''description'', JStr ''Description of parameter 2''),
                          (''default'', JBool False)])]"
    by (simp add: property_schemas_def my_tool_def)
  have h3: "distinct (map fst (property_schemas my_tool))" by (simp add: ps)
  have n: "name_of my_tool = ''my-tool''" by (simp add: name_of_def my_tool_def)
  have h4: "validateInput example_tool_manager ''my-tool'' (Some (JObj [(''param1'', JStr [])])) =
     Inr (Valid (Some (JObj [(''param1'', JStr [])])))"
    by (simp add: validateInput_def example_tool_manager_def safeParse_def get_property_def
        Object_prototype_methods_def)
  have h5: "applyDefaults example_tool_manager (Some (JObj [(''param1'', JStr [])])) ''my-tool'' =
     Inr (Some (JObj [(''param1'', JStr []), (''param2'', JBool False)]))"
    by (simp add: applyDefaults_def getSchema_def example_tool_manager_def my_tool_def
        has_property_def inherited_def Object_prototype_methods_def assign_def
        define_property_def array_index_def is_digit_def)
  from applyDefaults_validated [OF h1 h2 h3 h4 [folded n] h5 [folded n]]
  have "\<forall>kp \<in> set (property_schemas my_tool).
          fst kp \<notin> fst ` set [(''param1'', JStr [])] \<and> fst kp \<noteq> ''__proto__'' \<longrightarrow>
          map_of [(''param1'', JStr []), (''param2'', JBool False)] (fst kp) = declared_default (snd kp)"
    by auto
  then have "map_of [(''param1'', JStr []), (''param2'', JBool False)] ''param2'' =
     declared_default (JObj [(''type'', JStr ''boolean''),
                             (''description'', JStr ''Description of parameter 2''),
                             (''default'', JBool False)])"
    unfolding ps by simp
  with h1 h2 h3 h4 h5 show ?thesis by blast
qed



section \<open>The call handler\<close>

lemma valid_envelope_shape:
  assumes "validateToolRequest request = Inr (Valid d)"
  obtains r ps name where "request = Some (JObj r)" "map_of r ''params'' = Some (JObj ps)"
    "map_of ps ''name'' = Some (JStr name)"
proof -
  let ?inner = "[(''_meta'', ZOptional (ZObject [(''progressToken'', ZOptional ZUnionStringInt)]
                                           passthrough)),
                 (''name'', ZString), (''arguments'', ZOptional ZRecordAny)]"
  let ?outer = "[(''method'', ZLiteral ''tools/call''), (''params'', ZObject ?inner passthrough)]"
  from assms obtain v where "zparse CallToolRequestSchema [] request = Inr ([], v)"
    by (auto simp: validateToolRequest_def safeParse_def
        split: sum.splits prod.splits if_splits SafeParseReturn.splits)
  then have "zparse (ZObject ?outer strip) [] request = Inr ([], v)"
    by (simp only: CallToolRequestSchema_def)
  from zparse_ZObject_ok [OF this] obtain r out where r: "request = Some (JObj r)"
    and sh: "zparse_shape ?outer [] r = Inr ([], out)"
    by blast
  from zparse_shape_ok [OF sh, of "''params''" "ZObject ?inner passthrough"]
  obtain v3 where "zparse (ZObject ?inner passthrough) ([] @ [Key ''params''])
      (get_property r ''params'') = Inr ([], v3)" by auto
  from zparse_ZObject_ok [OF this] obtain ps out4
    where ps: "get_property r ''params'' = Some (JObj ps)"
      and sh4: "zparse_shape ?inner ([] @ [Key ''params'']) ps = Inr ([], out4)"
    by blast
  from zparse_shape_ok [OF sh4, of "''name''" ZString] zparse_ZString_ok
  obtain nm where nm: "map_of ps ''name'' = Some (JStr nm)" by fastforce
  from r ps nm that show thesis by simp
qed

lemma handle_call_tool_valid:
  assumes "validateToolRequest request = Inr (Valid d)"
  shows "handle_call_tool modules this request w =
         try_call_tool modules this (request_name request) (request_arguments request) w"
proof -
  from valid_envelope_shape [OF assms] obtain r ps name
    where "request = Some (JObj r)" "map_of r ''params'' = Some (JObj ps)"
      "map_of ps ''name'' = Some (JStr name)" by blast
  with assms show ?thesis
    by (simp add: handle_call_tool_def request_name_def request_arguments_def request_params_def)
qed

lemma try_call_tool_returns: "\<exists>response w'. try_call_tool modules this name args w = (Inr response, w')"
  by (cases "call_tool modules this name args w")
     (auto simp: try_call_tool_def split: sum.splits)

lemma handle_call_tool_returns:
  "\<exists>response w'. handle_call_tool modules this request w = (Inr response, w')"
proof (cases "validateToolRequest request")
  case (Inl e)
  with validateToolRequest_not_thrown show ?thesis by blast
next
  case (Inr v)
  show ?thesis
  proof (cases v)
    case (Valid d)
    with Inr handle_call_tool_valid try_call_tool_returns show ?thesis by metis
  next
    case (Invalid err)
    with Inr show ?thesis by (simp add: handle_call_tool_def)
  qed
qed

text \<open>
  Claim C5. When the envelope is valid, the arguments pass validation, the defaults are
  applied and the resolved handler throws an error, the call handler returns the
  response whose one text block is \<^verbatim>\<open>Error: \<close> followed by the error's message. And on
  every request the call handler returns a response: nothing it calls throws past it.
\<close>

theorem handler_error_becomes_response:
  "(validateToolRequest request = Inr (Valid d) \<and>
    validateInput this (request_name request) (request_arguments request) = Inr (Valid args) \<and>
    applyDefaults this args (request_name request) = Inr validatedArgs \<and>
    getToolHandler modules (request_name request) = Inr (Some toolHandler) \<and>
    toolHandler validatedArgs w = (Inl e, w')
    \<longrightarrow> handle_call_tool modules this request w =
          (Inr \<lparr>content = [TextContent (''Error: '' @ message e)]\<rparr>, w')) \<and>
   (\<exists>response w''. handle_call_tool modules this request w = (Inr response, w''))"
proof
  show "validateToolRequest request = Inr (Valid d) \<and>
    validateInput this (request_name request) (request_arguments request) = Inr (Valid args) \<and>
    applyDefaults this args (request_name request) = Inr validatedArgs \<and>
    getToolHandler modules (request_name request) = Inr (Some toolHandler) \<and>
    toolHandler validatedArgs w = (Inl e, w')
    \<longrightarrow> handle_call_tool modules this request w =
          (Inr \<lparr>content = [TextContent (''Error: '' @ message e)]\<rparr>, w')"
    by (simp add: handle_call_tool_valid try_call_tool_def call_tool_def)
  show "\<exists>response w''. handle_call_tool modules this request w = (Inr response, w'')"
    by (rule handle_call_tool_returns)
qed

text \<open>Witness for C5: a login call whose handler throws.\<close>

theorem handler_error_becomes_response_witness:
  "validateToolRequest (call_request ''aio-login'' []) =
     Inr (Valid (Some (JObj [(''method'', JStr ''tools/call''),
        (''params'', JObj [(''name'', JStr ''aio-login''), (''arguments'', JObj [])])]))) \<and>
   validateInput login_manager ''aio-login'' (Some (JObj [])) = Inr (Valid (Some (JObj []))) \<and>
   applyDefaults login_manager (Some (JObj [])) ''aio-login'' =
     Inr (Some (JObj [(''force'', JBool False)])) \<and>
   handle_call_tool failing_modules login_manager (call_request ''aio-login'' []) (0::nat) =
     (Inr \<lparr>content = [TextContent ''Error: spawn aio ENOENT'']\<rparr>, 1)"
proof -
  have v: "validateToolRequest (call_request ''aio-login'' []) =
     Inr (Valid (Some (JObj [(''method'', JStr ''tools/call''),
        (''params'', JObj [(''name'', JStr ''aio-login''), (''arguments'', JObj [])])])))"
    by (simp add: request_defs)
  have n: "request_name (call_request ''aio-login'' []) = ''aio-login''"
    and ar: "request_arguments (call_request ''aio-login'' []) = Some (JObj [])"
    by (simp_all add: request_defs)
  have i: "validateInput login_manager ''aio-login'' (Some (JObj [])) = Inr (Valid (Some (JObj [])))"
    by (simp add: validateInput_def login_manager_def safeParse_def get_property_def
        Object_prototype_methods_def)
  have d: "applyDefaults login_manager (Some (JObj [])) ''aio-login'' =
     Inr (Some (JObj [(''force'', JBool False)]))"
    by (simp add: applyDefaults_def getSchema_def login_manager_def login_tool_def
        has_property_def inherited_def Object_prototype_methods_def assign_def)
  have g: "getToolHandler failing_modules ''aio-login'' =
      Inr (Some (\<lambda>args w. (Inl (Error ''spawn aio ENOENT''), Suc w)))"
    by (simp add: getToolHandler_def tool_names_def failing_modules_def)
  from handler_error_becomes_response [of "call_request ''aio-login'' []" _ login_manager
      "Some (JObj [])" "Some (JObj [(''force'', JBool False)])" failing_modules
      "\<lambda>args w. (Inl (Error ''spawn aio ENOENT''), Suc w)" 0 "Error ''spawn aio ENOENT''" 1]
    v n ar i d g
  have "handle_call_tool failing_modules login_manager (call_request ''aio-login'' []) (0::nat) =
     (Inr \<lparr>content = [TextContent ''Error: spawn aio ENOENT'']\<rparr>, 1)" by simp
  with v i d show ?thesis by blast
qed

text \<open>
  Claim C6. For a valid envelope naming a tool with no validator in the cache,
  \<^const>\<open>validateInput\<close> fails with \<^verbatim>\<open>Schema not found: \<close> and the name, and the call
  handler returns the input-validation response carrying that message, whatever the
  module table holds and with the world unchanged: no handler runs.
\<close>

theorem schema_not_found:
  assumes "validateToolRequest request = Inr (Valid d)"
    and "map_of (zodSchemas this) (request_name request) = None"
  shows "validateInput this (request_name request) (request_arguments request) =
           Inr (Invalid (''Schema not found: '' @ request_name request)) \<and>
         handle_call_tool modules this request w =
           (Inr \<lparr>content = [TextContent (cross_mark @ '' Input validation failed: Schema not found: ''
                                         @ request_name request)]\<rparr>, w)"
  using assms
  by (simp add: handle_call_tool_valid try_call_tool_def call_tool_def validateInput_def)

text \<open>Witness for C6: a call of the tool that was indexed without a validator.\<close>

theorem schema_not_found_witness:
  "validateToolRequest (call_request ''aio-where'' []) =
     Inr (Valid (Some (JObj [(''method'', JStr ''tools/call''),
        (''params'', JObj [(''name'', JStr ''aio-where''), (''arguments'', JObj [])])]))) \<and>
   map_of (zodSchemas example_manager) ''aio-where'' = None \<and>
   handle_call_tool failing_modules example_manager (call_request ''aio-where'' []) (0::nat) =
     (Inr \<lparr>content = [TextContent (cross_mark @ '' Input validation failed: Schema not found: aio-where'')]\<rparr>, 0)"
proof -
  have v: "validateToolRequest (call_request ''aio-where'' []) =
     Inr (Valid (Some (JObj [(''method'', JStr ''tools/call''),
        (''params'', JObj [(''name'', JStr ''aio-where''), (''arguments'', JObj [])])])))"
    by (simp add: request_defs)
  have n: "request_name (call_request ''aio-where'' []) = ''aio-where''"
    by (simp add: request_defs)
  have z: "map_of (zodSchemas example_manager) ''aio-where'' = None"
    by (simp add: example_manager_def)
  from schema_not_found [OF v, of example_manager failing_modules 0] n z
  have "handle_call_tool failing_modules example_manager (call_request ''aio-where'' []) (0::nat) =
     (Inr \<lparr>content = [TextContent (cross_mark @ '' Input validation failed: Schema not found: aio-where'')]\<rparr>, 0)"
    by simp
  with v z show ?thesis by blast
qed

subsection \<open>A default that is never applied\<close>

text \<open>
  Claim C3, at the input where the code departs from it. The descriptor declares the
  default \<^verbatim>\<open>Object\<close> for a property named \<^verbatim>\<open>__proto__\<close>. It loads; the empty
  argument object passes validation and the validated data is empty, so the property
  is strictly absent. \<^verbatim>\<open>'__proto__' in result\<close> holds through \<^verbatim>\<open>Object.prototype\<close>,
  the default is not set, and the handler is called with the empty object.
\<close>

theorem applyDefaults_proto_default:
  "loadSchemas (Inr [(''onboard.json'', Inr proto_tool)]) constructor =
     (proto_manager, [LoadedSchemas 1], None) \<and>
   property_schemas proto_tool =
     [(''__proto__'', JObj [(''type'', JStr ''string''), (''default'', JStr ''Object'')])] \<and>
   validateInput proto_manager ''onboard'' (Some (JObj [])) = Inr (Valid (Some (JObj []))) \<and>
   applyDefaults proto_manager (Some (JObj [])) ''onboard'' = Inr (Some (JObj [])) \<and>
   handle_call_tool recording_modules proto_manager (call_request ''onboard'' []) [] =
     (Inr \<lparr>content = [TextContent ''done'']\<rparr>, [Some (JObj [])])"
proof -
  have l: "loadSchemas (Inr [(''onboard.json'', Inr proto_tool)]) constructor =
     (proto_manager, [LoadedSchemas 1], None)"
    by (simp add: eval_defs proto_tool_def proto_manager_def)
  have p: "property_schemas proto_tool =
     [(''__proto__'', JObj [(''type'', JStr ''string''), (''default'', JStr ''Object'')])]"
    by (simp add: property_schemas_def proto_tool_def)
  have v: "validateInput proto_manager ''onboard'' (Some (JObj [])) = Inr (Valid (Some (JObj [])))"
    by (simp add: validateInput_def proto_manager_def safeParse_def)
  have a: "applyDefaults proto_manager (Some (JObj [])) ''onboard'' = Inr (Some (JObj []))"
    by (simp add: applyDefaults_def getSchema_def proto_manager_def proto_tool_def
        has_property_def inherited_def)
  have e: "validateToolRequest (call_request ''onboard'' []) =
     Inr (Valid (Some (JObj [(''method'', JStr ''tools/call''),
        (''params'', JObj [(''name'', JStr ''onboard''), (''arguments'', JObj [])])])))"
    by (simp add: request_defs)
  have n: "request_name (call_request ''onboard'' []) = ''onboard''"
    and ar: "request_arguments (call_request ''onboard'' []) = Some (JObj [])"
    by (simp_all add: request_defs)
  have g: "getToolHandler recording_modules ''onboard'' =
      Inr (Some (\<lambda>args w. (Inr \<lparr>content = [TextContent ''done'']\<rparr>, w @ [args])))"
    by (simp add: getToolHandler_def tool_names_def recording_modules_def)
  from handle_call_tool_valid [OF e, of recording_modules proto_manager "[]"] n ar v a g
  have h: "handle_call_tool recording_modules proto_manager (call_request ''onboard'' []) [] =
     (Inr \<lparr>content = [TextContent ''done'']\<rparr>, [Some (JObj [])])"
    by (simp add: try_call_tool_def call_tool_def)
  from l p v a h show ?thesis by blast
qed

section \<open>The process executor\<close>

text \<open>
  Claim C9. \<^const>\<open>executeCommand\<close> always returns a result, and the result reports success
  exactly when the child ran and exited with code 0, whatever it wrote to its streams;
  when the command cannot be spawned, the result is a failure with empty output and the
  spawn failure's message as its error.
\<close>

theorem executeCommand_result:
  "(\<exists>r. executeCommand spawn command argv = Inr r \<and>
        (result_success r \<longleftrightarrow> (\<exists>chunks. spawn command argv = Exited chunks 0))) \<and>
   (spawn command argv = SpawnFailure msg \<longrightarrow>
      executeCommand spawn command argv =
        Inr \<lparr>result_success = False, result_output = [], result_error = Some msg\<rparr>)"
  by (cases "spawn command argv") (auto simp: executeCommand_def)

text \<open>Witness for C9: a command that succeeds while writing to standard error, and one
  that does not exist.\<close>

theorem executeCommand_result_witness:
  "executeCommand example_spawn ''echo'' [''hello''] =
     Inr \<lparr>result_success = True, result_output = ''hello!'', result_error = Some ''warning''\<rparr> \<and>
   executeCommand example_spawn ''aoi'' [''login''] =
     Inr \<lparr>result_success = False, result_output = [], result_error = Some ''spawn aoi ENOENT''\<rparr>"
proof -
  have s: "example_spawn ''aoi'' [''login''] = SpawnFailure ''spawn aoi ENOENT''"
    by (simp add: example_spawn_def)
  from executeCommand_result [of example_spawn "''aoi''" "[''login'']" "''spawn aoi ENOENT''"] s
  have "executeCommand example_spawn ''aoi'' [''login''] =
     Inr \<lparr>result_success = False, result_output = [], result_error = Some ''spawn aoi ENOENT''\<rparr>"
    by blast
  moreover have "executeCommand example_spawn ''echo'' [''hello''] =
     Inr \<lparr>result_success = True, result_output = ''hello!'', result_error = Some ''warning''\<rparr>"
    by (simp add: executeCommand_def example_spawn_def)
  ultimately show ?thesis by blast
qed

end
